theory Spec2Isabelle
  imports Main "HOL-Library.Word" "HOL-Library.Code_Target_Nat"
begin

section \<open>Values of the program\<close>

text \<open>
  A Python \<open>str\<close> is a sequence of code points (numbers below \<open>0x110000\<close>, lone
  surrogates included); \<open>bytes\<close> is a sequence of octets. The columns of an account row
  hold either kind, or \<open>None\<close> (SQL NULL): \<open>encrypt\<close> hands back the \<open>str\<close> it was
  given for blank input and \<open>bytes\<close> otherwise, and SQLite stores and returns both as
  they are.
\<close>

type_synonym byte = "8 word"
type_synonym bytes = "byte list"
type_synonym pystr = "nat list"

datatype pyval = PNone | PStr pystr | PBytes bytes

text \<open>An ASCII literal as a \<open>str\<close>.\<close>

definition str_lit :: "string \<Rightarrow> pystr" where
  "str_lit s = map of_char s"

datatype value_error =
    AccountNotFound int      \<comment> \<open>\<open>ValueError(f"Account with UID {uid} not found.")\<close>\<close>
  | InvalidColumnName pystr  \<comment> \<open>\<open>ValueError(f"Invalid column name: {column_updated}")\<close>\<close>
  | BadKeySize               \<comment> \<open>\<open>AESGCM(key)\<close>: the key is not 128, 192 or 256 bits\<close>
  | BadNonceSize             \<comment> \<open>\<open>AESGCM\<close>: the nonce is not between 8 and 128 bytes\<close>

datatype error =
    TypeError
  | ValueError value_error
  | UnicodeEncodeError
  | UnicodeDecodeError
  | InvalidTag
  | FileNotFoundError
  | OSError
  | IntegrityError
  | OverflowError

section \<open>Python built-ins used by the program\<close>

subsection \<open>\<open>strip()\<close>\<close>

text \<open>
  \<open>str.strip()\<close> removes the code points for which \<open>str.isspace\<close> holds from both
  ends; \<open>bytes.strip()\<close> removes only the six ASCII whitespace octets.
\<close>

definition py_isspace :: "nat \<Rightarrow> bool" where
  "py_isspace c \<longleftrightarrow>
     (9 \<le> c \<and> c \<le> 13) \<or> (28 \<le> c \<and> c \<le> 32) \<or> c = 133 \<or> c = 160 \<or> c = 5760 \<or>
     (8192 \<le> c \<and> c \<le> 8202) \<or> c = 8232 \<or> c = 8233 \<or> c = 8239 \<or> c = 8287 \<or>
     c = 12288"

definition bytes_isspace :: "byte \<Rightarrow> bool" where
  "bytes_isspace b \<longleftrightarrow> (9 \<le> unat b \<and> unat b \<le> 13) \<or> unat b = 32"

definition str_strip :: "pystr \<Rightarrow> pystr" where
  "str_strip s = rev (dropWhile py_isspace (rev (dropWhile py_isspace s)))"

definition bytes_strip :: "bytes \<Rightarrow> bytes" where
  "bytes_strip b = rev (dropWhile bytes_isspace (rev (dropWhile bytes_isspace b)))"

subsection \<open>UTF-8\<close>

text \<open>
  \<open>s.encode('utf-8')\<close> raises \<open>UnicodeEncodeError\<close> on a lone surrogate
  (\<open>0xD800\<close> to \<open>0xDFFF\<close>); \<open>None\<close> stands for that. Numbers from \<open>0x110000\<close> on are
  not code points of any \<open>str\<close>.
\<close>

definition utf8_encode_cp :: "nat \<Rightarrow> bytes option" where
  "utf8_encode_cp c =
     (if c < 0x80 then Some [of_nat c]
      else if c < 0x800 then Some [of_nat (0xC0 + c div 64), of_nat (0x80 + c mod 64)]
      else if c < 0x10000 then
        (if 0xD800 \<le> c \<and> c \<le> 0xDFFF then None
         else Some [of_nat (0xE0 + c div 4096), of_nat (0x80 + c div 64 mod 64),
                    of_nat (0x80 + c mod 64)])
      else if c < 0x110000 then
        Some [of_nat (0xF0 + c div 262144), of_nat (0x80 + c div 4096 mod 64),
              of_nat (0x80 + c div 64 mod 64), of_nat (0x80 + c mod 64)]
      else None)"

fun utf8_encode :: "pystr \<Rightarrow> bytes option" where
  "utf8_encode [] = Some []"
| "utf8_encode (c # cs) =
     (case utf8_encode_cp c of
        None \<Rightarrow> None
      | Some e \<Rightarrow> (case utf8_encode cs of None \<Rightarrow> None | Some es \<Rightarrow> Some (e @ es)))"

text \<open>
  \<open>b.decode('utf-8')\<close> is strict: it raises \<open>UnicodeDecodeError\<close> (here \<open>None\<close>) on a
  stray or missing continuation byte, an overlong form, an encoded surrogate and a value
  above \<open>0x10FFFF\<close>.
\<close>

definition is_cont :: "byte \<Rightarrow> bool" where
  "is_cont b \<longleftrightarrow> 0x80 \<le> unat b \<and> unat b < 0xC0"

definition cp2 :: "byte \<Rightarrow> byte \<Rightarrow> nat" where
  "cp2 b0 b1 = (unat b0 - 0xC0) * 64 + (unat b1 - 0x80)"

definition cp3 :: "byte \<Rightarrow> byte \<Rightarrow> byte \<Rightarrow> nat" where
  "cp3 b0 b1 b2 = (unat b0 - 0xE0) * 4096 + (unat b1 - 0x80) * 64 + (unat b2 - 0x80)"

definition cp4 :: "byte \<Rightarrow> byte \<Rightarrow> byte \<Rightarrow> byte \<Rightarrow> nat" where
  "cp4 b0 b1 b2 b3 =
     (unat b0 - 0xF0) * 262144 + (unat b1 - 0x80) * 4096 + (unat b2 - 0x80) * 64 +
     (unat b3 - 0x80)"

fun utf8_decode :: "bytes \<Rightarrow> pystr option" where
  "utf8_decode [] = Some []"
| "utf8_decode (b0 # bs) =
     (if unat b0 < 0x80 then map_option ((#) (unat b0)) (utf8_decode bs)
      else if unat b0 < 0xC0 then None
      else if unat b0 < 0xE0 then
        (case bs of
           b1 # r \<Rightarrow>
             if is_cont b1 \<and> 0x80 \<le> cp2 b0 b1
             then map_option ((#) (cp2 b0 b1)) (utf8_decode r) else None
         | _ \<Rightarrow> None)
      else if unat b0 < 0xF0 then
        (case bs of
           b1 # b2 # r \<Rightarrow>
             if is_cont b1 \<and> is_cont b2 \<and> 0x800 \<le> cp3 b0 b1 b2 \<and>
                \<not> (0xD800 \<le> cp3 b0 b1 b2 \<and> cp3 b0 b1 b2 \<le> 0xDFFF)
             then map_option ((#) (cp3 b0 b1 b2)) (utf8_decode r) else None
         | _ \<Rightarrow> None)
      else if unat b0 < 0xF8 then
        (case bs of
           b1 # b2 # b3 # r \<Rightarrow>
             if is_cont b1 \<and> is_cont b2 \<and> is_cont b3 \<and> 0x10000 \<le> cp4 b0 b1 b2 b3 \<and>
                cp4 b0 b1 b2 b3 < 0x110000
             then map_option ((#) (cp4 b0 b1 b2 b3)) (utf8_decode r) else None
         | _ \<Rightarrow> None)
      else None)"

section \<open>utils/cryptography.py\<close>

subsection \<open>The libraries behind it\<close>

text \<open>
  AES-GCM and SHA-256 come from the \<open>cryptography\<close> package and \<open>hashlib\<close>, and the keys
  directory from the working directory of the process. They are parameters of the model:
  \<open>gcm_encrypt key nonce data\<close> is the ciphertext followed by the 16-byte tag,
  \<open>gcm_decrypt key nonce data\<close> is \<open>None\<close> when the tag does not verify (data
  shorter than a tag included).
  The random draws of \<open>secrets.token_bytes\<close> are arguments of the functions that draw.
\<close>

record env =
  gcm_encrypt :: "bytes \<Rightarrow> bytes \<Rightarrow> bytes \<Rightarrow> bytes"
  gcm_decrypt :: "bytes \<Rightarrow> bytes \<Rightarrow> bytes \<Rightarrow> bytes option"
  sha256 :: "bytes \<Rightarrow> bytes"
  KEYS_DIRECTORY :: pystr

text \<open>
  The class \<open>AESGCM\<close>: the constructor refuses a key that is not 16, 24 or 32 bytes long;
  \<open>encrypt\<close> and \<open>decrypt\<close> refuse a nonce outside 8 to 128 bytes; \<open>decrypt\<close> raises
  \<open>InvalidTag\<close> when the tag does not verify.
\<close>

definition AESGCM :: "bytes \<Rightarrow> error + bytes" where
  "AESGCM key =
     (if length key = 16 \<or> length key = 24 \<or> length key = 32 then Inr key
      else Inl (ValueError BadKeySize))"

definition aesgcm_encrypt :: "env \<Rightarrow> bytes \<Rightarrow> bytes \<Rightarrow> bytes \<Rightarrow> error + bytes" where
  "aesgcm_encrypt E key nonce data =
     (if length nonce < 8 \<or> 128 < length nonce then Inl (ValueError BadNonceSize)
      else Inr (gcm_encrypt E key nonce data))"

definition aesgcm_decrypt :: "env \<Rightarrow> bytes \<Rightarrow> bytes \<Rightarrow> bytes \<Rightarrow> error + bytes" where
  "aesgcm_decrypt E key nonce data =
     (if length nonce < 8 \<or> 128 < length nonce then Inl (ValueError BadNonceSize)
      else (case gcm_decrypt E key nonce data of
              None \<Rightarrow> Inl InvalidTag
            | Some plaintext \<Rightarrow> Inr plaintext))"

subsection \<open>The functions of the module\<close>

definition is_empty_or_whitespace :: "pyval \<Rightarrow> bool" where
  "is_empty_or_whitespace strng =
     (case strng of
        PNone \<Rightarrow> True
      | PStr s \<Rightarrow> str_strip s = []
      | PBytes b \<Rightarrow> bytes_strip b = [])"

text \<open>
  \<open>encrypt\<close>; \<open>nonce\<close> is what \<open>secrets.token_bytes(12)\<close> returns in this call. The
  cipher object is built before the plaintext is encoded.
\<close>

definition encrypt :: "env \<Rightarrow> bytes \<Rightarrow> bytes \<Rightarrow> pystr \<Rightarrow> error + pyval" where
  "encrypt E nonce key plaintext =
     (if is_empty_or_whitespace (PStr plaintext) then Inr (PStr plaintext)
      else (case AESGCM key of
              Inl e \<Rightarrow> Inl e
            | Inr aesgcm \<Rightarrow>
                (case utf8_encode plaintext of
                   None \<Rightarrow> Inl UnicodeEncodeError
                 | Some data \<Rightarrow>
                     (case aesgcm_encrypt E aesgcm nonce data of
                        Inl e \<Rightarrow> Inl e
                      | Inr ciphertext \<Rightarrow> Inr (PBytes (nonce @ ciphertext))))))"

text \<open>
  \<open>decrypt\<close>; the argument is whatever the column holds. A \<open>str\<close> that is not blank
  cannot serve as nonce and data of the cipher: \<open>TypeError\<close>.
\<close>

definition decrypt :: "env \<Rightarrow> bytes \<Rightarrow> pyval \<Rightarrow> error + pyval" where
  "decrypt E key ciphertext =
     (if is_empty_or_whitespace ciphertext then Inr ciphertext
      else (case AESGCM key of
              Inl e \<Rightarrow> Inl e
            | Inr aesgcm \<Rightarrow>
                (case ciphertext of
                   PBytes b \<Rightarrow>
                     (case aesgcm_decrypt E aesgcm (take 12 b) (drop 12 b) of
                        Inl e \<Rightarrow> Inl e
                      | Inr plaintext \<Rightarrow>
                          (case utf8_decode plaintext of
                             None \<Rightarrow> Inl UnicodeDecodeError
                           | Some s \<Rightarrow> Inr (PStr s)))
                 | _ \<Rightarrow> Inl TypeError)))"

definition hex_digit :: "nat \<Rightarrow> nat" where
  "hex_digit n = (if n < 10 then 48 + n else 87 + n)"

definition hexdigest :: "bytes \<Rightarrow> pystr" where
  "hexdigest d = concat (map (\<lambda>b. [hex_digit (unat b div 16), hex_digit (unat b mod 16)]) d)"

text \<open>\<open>hash_str\<close>: a \<open>str\<close> is encoded first; \<open>sha256(None)\<close> is a \<open>TypeError\<close>.\<close>

definition hash_str :: "env \<Rightarrow> pyval \<Rightarrow> error + pystr" where
  "hash_str E key =
     (case key of
        PStr s \<Rightarrow>
          (case utf8_encode s of
             None \<Rightarrow> Inl UnicodeEncodeError
           | Some b \<Rightarrow> Inr (hexdigest (sha256 E b)))
      | PBytes b \<Rightarrow> Inr (hexdigest (sha256 E b))
      | PNone \<Rightarrow> Inl TypeError)"

text \<open>\<open>os.path.join\<close> of two components (POSIX): an absolute second component wins.\<close>

definition os_path_join :: "pystr \<Rightarrow> pystr \<Rightarrow> pystr" where
  "os_path_join a b =
     (if b \<noteq> [] \<and> hd b = 47 then b
      else if a = [] \<or> last a = 47 then a @ b
      else a @ 47 # b)"

definition KEY_FILE_EXTENSION :: pystr where
  "KEY_FILE_EXTENSION = str_lit ''.bin''"

text \<open>
  \<open>build_key_file_path\<close>: the file name is what the \<open>key_file\<close> column holds, a \<open>str\<close>
  or \<open>None\<close>; \<open>None + ".bin"\<close> is a \<open>TypeError\<close>.
\<close>

definition build_key_file_path :: "env \<Rightarrow> pystr option \<Rightarrow> error + pystr" where
  "build_key_file_path E file_name =
     (case file_name of
        None \<Rightarrow> Inl TypeError
      | Some name \<Rightarrow> Inr (os_path_join (KEYS_DIRECTORY E) (name @ KEY_FILE_EXTENSION)))"

text \<open>
  The files on disk, by path. Whether a write or a removal is refused by the operating
  system (\<open>OSError\<close>) is not decided by the program: \<open>io_ok\<close> says how that call went.
\<close>

type_synonym files = "pystr \<rightharpoonup> bytes"

definition save_key_to_file ::
  "env \<Rightarrow> bool \<Rightarrow> pystr option \<Rightarrow> bytes \<Rightarrow> files \<Rightarrow> error + files" where
  "save_key_to_file E io_ok file_name key fs =
     (case build_key_file_path E file_name of
        Inl e \<Rightarrow> Inl e
      | Inr path \<Rightarrow> if io_ok then Inr (fs(path \<mapsto> key)) else Inl OSError)"

definition read_key_from_file :: "env \<Rightarrow> pystr option \<Rightarrow> files \<Rightarrow> error + bytes" where
  "read_key_from_file E file_name fs =
     (case build_key_file_path E file_name of
        Inl e \<Rightarrow> Inl e
      | Inr path \<Rightarrow> (case fs path of None \<Rightarrow> Inl FileNotFoundError | Some key \<Rightarrow> Inr key))"

text \<open>
  \<open>delete_key_file\<close>: the path is built outside the \<open>try\<close>; a failing \<open>os.remove\<close> is
  caught, printed, and the function returns \<open>False\<close>.
\<close>

definition delete_key_file ::
  "env \<Rightarrow> bool \<Rightarrow> pystr option \<Rightarrow> files \<Rightarrow> error + bool \<times> files" where
  "delete_key_file E io_ok file_name fs =
     (case build_key_file_path E file_name of
        Inl e \<Rightarrow> Inl e
      | Inr file_path \<Rightarrow>
          if fs file_path \<noteq> None then
            (if io_ok then Inr (True, fs(file_path := None)) else Inr (False, fs))
          else Inr (False, fs))"

section \<open>database/database.py\<close>

text \<open>
  A row of the table \<open>accounts\<close>. The state of the vault is the table, in insertion
  order, and the files on disk. A session that raises before \<open>commit\<close> leaves the table
  as it was. The daily copy of the database file that the commit hook makes under
  \<open>backup/\<close> is not part of the state.
\<close>

record account =
  id_col :: nat
  key_file :: "pystr option"
  website :: pyval
  "notes" :: pyval
  email :: pyval
  username :: pyval
  password :: pyval

record state =
  accounts :: "account list"
  keys :: files

text \<open>
  The INSERT of a commit: \<open>password\<close> is NOT NULL, \<open>key_file\<close> is UNIQUE (NULLs do not
  collide), and the integer primary key, left \<open>None\<close> by the program, becomes one more
  than the largest id in the table (1 in an empty table).
\<close>

definition next_id :: "account list \<Rightarrow> nat" where
  "next_id rows = Suc (fold max (map id_col rows) 0)"

definition insert_account :: "account \<Rightarrow> account list \<Rightarrow> error + account list" where
  "insert_account a rows =
     (if password a = PNone then Inl IntegrityError
      else if key_file a \<noteq> None \<and> key_file a \<in> set (map key_file rows) then Inl IntegrityError
      else Inr (rows @ [a\<lparr>id_col := next_id rows\<rparr>]))"

text \<open>
  \<open>session.query(Account).filter_by(id=uid).first()\<close>; \<open>uid\<close> is a Python \<open>int\<close>.
  SQLite binds integers of 64 bits, signed: on any other the query raises
  \<open>OverflowError\<close> ("Python int too large to convert to SQLite INTEGER"). Otherwise
  it returns the first row with that id, or \<open>None\<close>.
\<close>

definition sqlite_integer :: "int \<Rightarrow> bool" where
  "sqlite_integer i \<longleftrightarrow> - (2 ^ 63) \<le> i \<and> i < 2 ^ 63"

definition query_by_id :: "int \<Rightarrow> account list \<Rightarrow> error + account option" where
  "query_by_id uid rows =
     (if sqlite_integer uid then Inr (find (\<lambda>a. int (id_col a) = uid) rows)
      else Inl OverflowError)"

text \<open>
  The UPDATE and the DELETE of a commit act on the row the session holds, by its primary
  key.
\<close>

definition update_row :: "nat \<Rightarrow> (account \<Rightarrow> account) \<Rightarrow> account list \<Rightarrow> account list" where
  "update_row uid f rows = map (\<lambda>a. if id_col a = uid then f a else a) rows"

definition delete_row :: "nat \<Rightarrow> account list \<Rightarrow> account list" where
  "delete_row uid rows = filter (\<lambda>a. id_col a \<noteq> uid) rows"

definition fetch_master_password :: "state \<Rightarrow> pyval" where
  "fetch_master_password st =
     (case find (\<lambda>a. username a = PStr (str_lit ''master'')) (accounts st) of
        Some account \<Rightarrow> password account
      | None \<Rightarrow> PNone)"

definition set_master_password :: "pystr \<Rightarrow> state \<Rightarrow> (error + unit) \<times> state" where
  "set_master_password hashed_password st =
     (case insert_account
             \<lparr>id_col = 0, key_file = None, website = PNone, notes = PNone, email = PNone,
              username = PStr (str_lit ''master''), password = PStr hashed_password\<rparr>
             (accounts st) of
        Inl e \<Rightarrow> (Inl e, st)
      | Inr rows \<Rightarrow> (Inr (), st\<lparr>accounts := rows\<rparr>))"


text \<open>
  \<open>save_account\<close>; \<open>key\<close> is what \<open>generate_key()\<close> returns in this call and the five
  nonces are those drawn by the five calls of \<open>encrypt\<close>, in the order of the source.
  Every exception is printed and raised again. The row is committed before the key file
  is written.
\<close>

definition save_account ::
  "env \<Rightarrow> bytes \<Rightarrow> bytes \<Rightarrow> bytes \<Rightarrow> bytes \<Rightarrow> bytes \<Rightarrow> bytes \<Rightarrow> bool \<Rightarrow>
   pystr \<Rightarrow> pystr \<Rightarrow> pystr \<Rightarrow> pystr \<Rightarrow> pystr \<Rightarrow> state \<Rightarrow> (error + unit) \<times> state" where
  "save_account E key n1 n2 n3 n4 n5 io_ok website' notes' email' username' password' st =
     (case hash_str E (PBytes key) of Inl e \<Rightarrow> (Inl e, st) | Inr h \<Rightarrow>
      (case encrypt E n1 key website' of Inl e \<Rightarrow> (Inl e, st) | Inr w \<Rightarrow>
      (case encrypt E n2 key notes' of Inl e \<Rightarrow> (Inl e, st) | Inr n \<Rightarrow>
      (case encrypt E n3 key email' of Inl e \<Rightarrow> (Inl e, st) | Inr m \<Rightarrow>
      (case encrypt E n4 key username' of Inl e \<Rightarrow> (Inl e, st) | Inr u \<Rightarrow>
      (case encrypt E n5 key password' of Inl e \<Rightarrow> (Inl e, st) | Inr p \<Rightarrow>
      (case insert_account
              \<lparr>id_col = 0, key_file = Some (take 15 h), website = w, notes = n, email = m,
               username = u, password = p\<rparr>
              (accounts st) of
         Inl e \<Rightarrow> (Inl e, st)
       | Inr rows \<Rightarrow>
           (case save_key_to_file E io_ok (Some (take 15 h)) key (keys st) of
              Inl e \<Rightarrow> (Inl e, st\<lparr>accounts := rows\<rparr>)
            | Inr fs \<Rightarrow> (Inr (), st\<lparr>accounts := rows, keys := fs\<rparr>)))))))))"

text \<open>
  \<open>update_account\<close>; \<open>uid\<close> is a Python \<open>int\<close> and \<open>nonce\<close> is the one \<open>encrypt\<close>
  draws when the new value is not blank. The query runs before the test for a missing
  row, and the column name is looked at after the new value is encrypted.
\<close>

definition update_account ::
  "env \<Rightarrow> bytes \<Rightarrow> int \<Rightarrow> pystr \<Rightarrow> pystr \<Rightarrow> state \<Rightarrow> (error + unit) \<times> state" where
  "update_account E nonce uid column_updated new_value st =
     (case query_by_id uid (accounts st) of
        Inl e \<Rightarrow> (Inl e, st)
      | Inr None \<Rightarrow> (Inl (ValueError (AccountNotFound uid)), st)
      | Inr (Some row) \<Rightarrow>
          (case (if \<not> is_empty_or_whitespace (PStr new_value)
                 then (case read_key_from_file E (key_file row) (keys st) of
                         Inl e \<Rightarrow> Inl e
                       | Inr key \<Rightarrow> encrypt E nonce key new_value)
                 else Inr (PStr new_value)) of
             Inl e \<Rightarrow> (Inl e, st)
           | Inr v \<Rightarrow>
               if column_updated = str_lit ''Website''
               then (Inr (), st\<lparr>accounts := update_row (id_col row) (\<lambda>a. a\<lparr>website := v\<rparr>) (accounts st)\<rparr>)
               else if column_updated = str_lit ''Notes''
               then (Inr (), st\<lparr>accounts := update_row (id_col row) (\<lambda>a. a\<lparr>notes := v\<rparr>) (accounts st)\<rparr>)
               else if column_updated = str_lit ''Email''
               then (Inr (), st\<lparr>accounts := update_row (id_col row) (\<lambda>a. a\<lparr>email := v\<rparr>) (accounts st)\<rparr>)
               else if column_updated = str_lit ''Username''
               then (Inr (), st\<lparr>accounts := update_row (id_col row) (\<lambda>a. a\<lparr>username := v\<rparr>) (accounts st)\<rparr>)
               else if column_updated = str_lit ''Password''
               then (Inr (), st\<lparr>accounts := update_row (id_col row) (\<lambda>a. a\<lparr>password := v\<rparr>) (accounts st)\<rparr>)
               else (Inl (ValueError (InvalidColumnName column_updated)), st)))"

text \<open>
  \<open>delete_account\<close>; \<open>uid\<close> is a Python \<open>int\<close>. The key file is removed between
  \<open>session.delete\<close> and \<open>commit\<close>; an exception there, or from the query, leaves
  the row in the table.
\<close>

definition delete_account :: "env \<Rightarrow> bool \<Rightarrow> int \<Rightarrow> state \<Rightarrow> (error + unit) \<times> state" where
  "delete_account E io_ok uid st =
     (case query_by_id uid (accounts st) of
        Inl e \<Rightarrow> (Inl e, st)
      | Inr None \<Rightarrow> (Inr (), st)
      | Inr (Some account_to_delete) \<Rightarrow>
          (case delete_key_file E io_ok (key_file account_to_delete) (keys st) of
             Inl e \<Rightarrow> (Inl e, st)
           | Inr (deleted, fs) \<Rightarrow>
               (Inr (), st\<lparr>accounts := delete_row (id_col account_to_delete) (accounts st),
                            keys := fs\<rparr>)))"

section \<open>gui/login_window.py\<close>

text \<open>
  \<open>LoginWindow.login\<close>, with the text of the password field as argument. The outcome is
  the dialog shown or the opening of the main window; any exception ends in the
  \<open>critical\<close> dialog.
\<close>

datatype login_outcome =
    MasterPasswordSet           \<comment> \<open>"Master password set successfully.", then the main window\<close>
  | LoggedIn                    \<comment> \<open>the main window\<close>
  | IncorrectMasterPassword     \<comment> \<open>"Incorrect master password."\<close>
  | Critical error

definition login :: "env \<Rightarrow> pystr \<Rightarrow> state \<Rightarrow> login_outcome \<times> state" where
  "login E password' st =
     (case fetch_master_password st of
        PNone \<Rightarrow>
          (case utf8_encode password' of
             None \<Rightarrow> (Critical UnicodeEncodeError, st)
           | Some b \<Rightarrow>
               (case hash_str E (PBytes b) of
                  Inl e \<Rightarrow> (Critical e, st)
                | Inr h \<Rightarrow>
                    (case set_master_password h st of
                       (Inl e, st') \<Rightarrow> (Critical e, st')
                     | (Inr u, st') \<Rightarrow> (MasterPasswordSet, st'))))
      | master_password \<Rightarrow>
          (case utf8_encode password' of
             None \<Rightarrow> (Critical UnicodeEncodeError, st)
           | Some b \<Rightarrow>
               (case hash_str E (PBytes b) of
                  Inl e \<Rightarrow> (Critical e, st)
                | Inr h \<Rightarrow>
                    if PStr h = master_password then (LoggedIn, st)
                    else (IncorrectMasterPassword, st))))"

section \<open>An instance of the libraries\<close>

text \<open>
  A small cipher and hash with the interface of the parameters, to run the model on
  concrete inputs: the tag is the first 16 bytes of the key, the digest the first 32
  bytes of the padded input.
\<close>

definition demo_gcm_encrypt :: "bytes \<Rightarrow> bytes \<Rightarrow> bytes \<Rightarrow> bytes" where
  "demo_gcm_encrypt key nonce data = data @ take 16 key"

definition demo_gcm_decrypt :: "bytes \<Rightarrow> bytes \<Rightarrow> bytes \<Rightarrow> bytes option" where
  "demo_gcm_decrypt key nonce data =
     (if 16 \<le> length data \<and> drop (length data - 16) data = take 16 key
      then Some (take (length data - 16) data) else None)"

definition demo_sha256 :: "bytes \<Rightarrow> bytes" where
  "demo_sha256 b = take 32 (b @ replicate 32 0)"

definition demo_env :: env where
  "demo_env =
     \<lparr>gcm_encrypt = demo_gcm_encrypt, gcm_decrypt = demo_gcm_decrypt, sha256 = demo_sha256,
      KEYS_DIRECTORY = str_lit ''/vault/keys''\<rparr>"

text \<open>
  Vaults to run the model on: an empty one; one with the sentinel row alone, holding the
  digest of "secret"; and one with, besides, an account whose key is the 32 bytes \<open>01\<close>
  and that key in its file. The account's website and password hold the sealed "p\'e",
  the other three columns blank values.
\<close>

definition demo_master_row :: account where
  "demo_master_row =
     \<lparr>id_col = 1, key_file = None, website = PNone, notes = PNone, email = PNone,
      username = PStr (str_lit ''master''),
      password =
        PStr (str_lit ''7365637265740000000000000000000000000000000000000000000000000000'')\<rparr>"

definition demo_account_row :: account where
  "demo_account_row =
     \<lparr>id_col = 2, key_file = Some (str_lit ''010101010101010''),
      website = PBytes (replicate 12 7 @ [112, 195, 169] @ replicate 16 1),
      notes = PStr [], email = PStr [32], username = PStr [],
      password = PBytes (replicate 12 8 @ [112, 195, 169] @ replicate 16 1)\<rparr>"

definition demo_key_path :: pystr where
  "demo_key_path = str_lit ''/vault/keys/010101010101010.bin''"

definition demo_empty_vault :: state where
  "demo_empty_vault = \<lparr>accounts = [], keys = Map.empty\<rparr>"

definition demo_master_vault :: state where
  "demo_master_vault = \<lparr>accounts = [demo_master_row], keys = Map.empty\<rparr>"

definition demo_vault :: state where
  "demo_vault =
     \<lparr>accounts = [demo_master_row, demo_account_row],
      keys = [demo_key_path \<mapsto> replicate 32 1]\<rparr>"

section \<open>Predicates of the statements\<close>

text \<open>
  Between a row before and after an update: nothing but the named column differs.
\<close>

definition only_column_changed :: "pystr \<Rightarrow> account \<Rightarrow> account \<Rightarrow> bool" where
  "only_column_changed column a a' \<longleftrightarrow>
     id_col a' = id_col a \<and> key_file a' = key_file a \<and>
     (column = str_lit ''Website'' \<or> website a' = website a) \<and>
     (column = str_lit ''Notes'' \<or> notes a' = notes a) \<and>
     (column = str_lit ''Email'' \<or> email a' = email a) \<and>
     (column = str_lit ''Username'' \<or> username a' = username a) \<and>
     (column = str_lit ''Password'' \<or> password a' = password a)"

text \<open>
  A string that \<open>encrypt\<close> accepts: blank, or one that encodes as UTF-8. And a string
  that, sealed with this nonce under this key, can be read back: blank, or one that
  encodes, whose ciphertext the cipher opens under the same key and nonce, and whose
  stored bytes are not all ASCII whitespace (\<open>decrypt\<close> would take them for a blank
  value).
\<close>

definition storable :: "pystr \<Rightarrow> bool" where
  "storable p \<longleftrightarrow> is_empty_or_whitespace (PStr p) \<or> utf8_encode p \<noteq> None"

definition readable :: "env \<Rightarrow> bytes \<Rightarrow> bytes \<Rightarrow> pystr \<Rightarrow> bool" where
  "readable E key nonce p \<longleftrightarrow>
     is_empty_or_whitespace (PStr p) \<or>
     (case utf8_encode p of
        None \<Rightarrow> False
      | Some data \<Rightarrow>
          gcm_decrypt E key nonce (gcm_encrypt E key nonce data) = Some data \<and>
          \<not> is_empty_or_whitespace (PBytes (nonce @ gcm_encrypt E key nonce data)))"

section \<open>UTF-8 decodes what it encoded\<close>

lemma unat_byte: "n < 256 \<Longrightarrow> unat (of_nat n :: 8 word) = n"
  by (simp add: unat_of_nat)

lemma decode1:
  assumes "unat b0 = c" "c < 0x80"
  shows "utf8_decode (b0 # bs) = map_option ((#) c) (utf8_decode bs)"
  using assms by simp

lemma decode2:
  assumes "unat b0 = 0xC0 + h" "h < 32" "unat b1 = 0x80 + l" "l < 64" "0x80 \<le> h * 64 + l"
  shows "utf8_decode (b0 # b1 # bs) = map_option ((#) (h * 64 + l)) (utf8_decode bs)"
  using assms by (simp add: is_cont_def cp2_def)

lemma decode3:
  assumes "unat b0 = 0xE0 + h" "h < 16" "unat b1 = 0x80 + m" "m < 64"
    "unat b2 = 0x80 + l" "l < 64" "0x800 \<le> h * 4096 + m * 64 + l"
    "\<not> (0xD800 \<le> h * 4096 + m * 64 + l \<and> h * 4096 + m * 64 + l \<le> 0xDFFF)"
  shows "utf8_decode (b0 # b1 # b2 # bs)
         = map_option ((#) (h * 4096 + m * 64 + l)) (utf8_decode bs)"
  using assms by (simp add: is_cont_def cp3_def)

lemma decode4:
  assumes "unat b0 = 0xF0 + h" "h < 8" "unat b1 = 0x80 + m" "m < 64"
    "unat b2 = 0x80 + n" "n < 64" "unat b3 = 0x80 + l" "l < 64"
    "0x10000 \<le> h * 262144 + m * 4096 + n * 64 + l"
    "h * 262144 + m * 4096 + n * 64 + l < 0x110000"
  shows "utf8_decode (b0 # b1 # b2 # b3 # bs)
         = map_option ((#) (h * 262144 + m * 4096 + n * 64 + l)) (utf8_decode bs)"
  using assms by (simp add: is_cont_def cp4_def)

lemma split2: "(c::nat) div 64 * 64 + c mod 64 = c"
  by simp

lemma scale64: "(a::nat) * 64 + b = d \<Longrightarrow> a * 4096 + b * 64 = d * 64"
  by arith

lemma scale4096: "(a::nat) * 64 + b = d \<Longrightarrow> a * 262144 + b * 4096 = d * 4096"
  by arith

lemma split3: "(c::nat) div 4096 * 4096 + c div 64 mod 64 * 64 + c mod 64 = c"
proof -
  have h: "c div 4096 = c div 64 div 64" by (simp add: div_mult2_eq)
  have "c div 64 div 64 * 64 + c div 64 mod 64 = c div 64" by (rule div_mult_mod_eq)
  then have "c div 64 div 64 * 4096 + c div 64 mod 64 * 64 = c div 64 * 64" by (rule scale64)
  then have "c div 4096 * 4096 + c div 64 mod 64 * 64 + c mod 64 = c div 64 * 64 + c mod 64"
    by (simp only: h)
  also have "\<dots> = c" by (rule div_mult_mod_eq)
  finally show ?thesis .
qed

lemma split4:
  "(c::nat) div 262144 * 262144 + c div 4096 mod 64 * 4096 + c div 64 mod 64 * 64 + c mod 64 = c"
proof -
  have h: "c div 262144 = c div 4096 div 64" by (simp add: div_mult2_eq)
  have "c div 4096 div 64 * 64 + c div 4096 mod 64 = c div 4096" by (rule div_mult_mod_eq)
  then have "c div 4096 div 64 * 262144 + c div 4096 mod 64 * 4096 = c div 4096 * 4096"
    by (rule scale4096)
  then have "c div 262144 * 262144 + c div 4096 mod 64 * 4096 + c div 64 mod 64 * 64 + c mod 64
      = c div 4096 * 4096 + c div 64 mod 64 * 64 + c mod 64"
    by (simp only: h)
  also have "\<dots> = c" by (rule split3)
  finally show ?thesis .
qed

lemma enc1: "c < 0x80 \<Longrightarrow> utf8_encode_cp c = Some [of_nat c]"
  by (simp add: utf8_encode_cp_def)

lemma enc2: "0x80 \<le> c \<Longrightarrow> c < 0x800 \<Longrightarrow>
    utf8_encode_cp c = Some [of_nat (0xC0 + c div 64), of_nat (0x80 + c mod 64)]"
  by (simp add: utf8_encode_cp_def)

lemma enc3: "0x800 \<le> c \<Longrightarrow> c < 0x10000 \<Longrightarrow> \<not> (0xD800 \<le> c \<and> c \<le> 0xDFFF) \<Longrightarrow>
    utf8_encode_cp c = Some [of_nat (0xE0 + c div 4096), of_nat (0x80 + c div 64 mod 64),
                             of_nat (0x80 + c mod 64)]"
  by (simp add: utf8_encode_cp_def)

lemma enc4: "0x10000 \<le> c \<Longrightarrow> c < 0x110000 \<Longrightarrow>
    utf8_encode_cp c = Some [of_nat (0xF0 + c div 262144), of_nat (0x80 + c div 4096 mod 64),
              of_nat (0x80 + c div 64 mod 64), of_nat (0x80 + c mod 64)]"
  by (simp add: utf8_encode_cp_def)

lemma enc_cases:
  assumes "utf8_encode_cp c = Some e"
  obtains "c < 0x80" | "0x80 \<le> c" "c < 0x800"
    | "0x800 \<le> c" "c < 0x10000" "\<not> (0xD800 \<le> c \<and> c \<le> 0xDFFF)"
    | "0x10000 \<le> c" "c < 0x110000"
proof -
  have "\<not> (0xD800 \<le> c \<and> c \<le> 0xDFFF)" "c < 0x110000"
    using assms by (auto simp: utf8_encode_cp_def split: if_splits)
  then show ?thesis using that by linarith
qed

lemma utf8_cp2:
  assumes "0x80 \<le> c" "c < 0x800"
  shows "utf8_decode (of_nat (0xC0 + c div 64) # of_nat (0x80 + c mod 64) # bs)
         = map_option ((#) c) (utf8_decode bs)"
proof -
  have b0: "unat (of_nat (0xC0 + c div 64) :: 8 word) = 0xC0 + c div 64"
    using assms by (intro unat_byte) simp
  have b1: "unat (of_nat (0x80 + c mod 64) :: 8 word) = 0x80 + c mod 64"
    by (intro unat_byte) simp
  have lead: "c div 64 < 32" using assms by simp
  have low: "c mod 64 < 64" by simp
  have lo: "0x80 \<le> c div 64 * 64 + c mod 64" using assms by (simp only: split2)
  show ?thesis using decode2 [OF b0 lead b1 low lo, of bs] by (simp only: split2)
qed

lemma utf8_cp3:
  assumes "0x800 \<le> c" "c < 0x10000" "\<not> (0xD800 \<le> c \<and> c \<le> 0xDFFF)"
  shows "utf8_decode (of_nat (0xE0 + c div 4096) # of_nat (0x80 + c div 64 mod 64) #
            of_nat (0x80 + c mod 64) # bs)
         = map_option ((#) c) (utf8_decode bs)"
proof -
  have b0: "unat (of_nat (0xE0 + c div 4096) :: 8 word) = 0xE0 + c div 4096"
    using assms by (intro unat_byte) simp
  have b1: "unat (of_nat (0x80 + c div 64 mod 64) :: 8 word) = 0x80 + c div 64 mod 64"
    by (intro unat_byte) simp
  have b2: "unat (of_nat (0x80 + c mod 64) :: 8 word) = 0x80 + c mod 64"
    by (intro unat_byte) simp
  have lead: "c div 4096 < 16" using assms by simp
  have mid: "c div 64 mod 64 < 64" and low: "c mod 64 < 64" by simp_all
  have lo: "0x800 \<le> c div 4096 * 4096 + c div 64 mod 64 * 64 + c mod 64"
    using assms by (simp only: split3)
  have sur: "\<not> (0xD800 \<le> c div 4096 * 4096 + c div 64 mod 64 * 64 + c mod 64 \<and>
      c div 4096 * 4096 + c div 64 mod 64 * 64 + c mod 64 \<le> 0xDFFF)"
    unfolding split3 by (rule assms(3))
  show ?thesis using decode3 [OF b0 lead b1 mid b2 low lo sur, of bs] by (simp only: split3)
qed

lemma utf8_cp4:
  assumes "0x10000 \<le> c" "c < 0x110000"
  shows "utf8_decode (of_nat (0xF0 + c div 262144) # of_nat (0x80 + c div 4096 mod 64) #
            of_nat (0x80 + c div 64 mod 64) # of_nat (0x80 + c mod 64) # bs)
         = map_option ((#) c) (utf8_decode bs)"
proof -
  have b0: "unat (of_nat (0xF0 + c div 262144) :: 8 word) = 0xF0 + c div 262144"
    using assms by (intro unat_byte) simp
  have b1: "unat (of_nat (0x80 + c div 4096 mod 64) :: 8 word) = 0x80 + c div 4096 mod 64"
    by (intro unat_byte) simp
  have b2: "unat (of_nat (0x80 + c div 64 mod 64) :: 8 word) = 0x80 + c div 64 mod 64"
    by (intro unat_byte) simp
  have b3: "unat (of_nat (0x80 + c mod 64) :: 8 word) = 0x80 + c mod 64"
    by (intro unat_byte) simp
  have lead: "c div 262144 < 8" using assms by simp
  have m1: "c div 4096 mod 64 < 64" and m2: "c div 64 mod 64 < 64" and low: "c mod 64 < 64"
    by simp_all
  have lo: "0x10000 \<le> c div 262144 * 262144 + c div 4096 mod 64 * 4096 +
      c div 64 mod 64 * 64 + c mod 64"
    using assms by (simp only: split4)
  have hi: "c div 262144 * 262144 + c div 4096 mod 64 * 4096 + c div 64 mod 64 * 64 + c mod 64
      < 0x110000"
    using assms by (simp only: split4)
  show ?thesis using decode4 [OF b0 lead b1 m1 b2 m2 b3 low lo hi, of bs]
    by (simp only: split4)
qed

lemma utf8_cp_roundtrip:
  assumes "utf8_encode_cp c = Some e"
  shows "utf8_decode (e @ bs) = map_option ((#) c) (utf8_decode bs)"
  using assms
proof (cases rule: enc_cases)
  case 1
  with assms enc1 [of c] have "e = [of_nat c]" by simp
  moreover have "unat (of_nat c :: 8 word) = c" using 1 by (intro unat_byte) simp
  ultimately show ?thesis using 1 by (simp only: append_Cons append_Nil decode1)
next
  case 2
  with assms have "e = [of_nat (0xC0 + c div 64), of_nat (0x80 + c mod 64)]"
    using enc2 [of c] by simp
  then show ?thesis using utf8_cp2 [OF 2, of bs] by (simp only: append_Cons append_Nil)
next
  case 3
  with assms have "e = [of_nat (0xE0 + c div 4096), of_nat (0x80 + c div 64 mod 64),
      of_nat (0x80 + c mod 64)]"
    using enc3 [of c] by simp
  then show ?thesis using utf8_cp3 [OF 3, of bs] by (simp only: append_Cons append_Nil)
next
  case 4
  with assms have "e = [of_nat (0xF0 + c div 262144), of_nat (0x80 + c div 4096 mod 64),
      of_nat (0x80 + c div 64 mod 64), of_nat (0x80 + c mod 64)]"
    using enc4 [of c] by simp
  then show ?thesis using utf8_cp4 [OF 4, of bs] by (simp only: append_Cons append_Nil)
qed

lemma utf8_roundtrip: "utf8_encode s = Some b \<Longrightarrow> utf8_decode b = Some s"
proof (induction s arbitrary: b)
  case Nil
  then show ?case by simp
next
  case (Cons c cs)
  then obtain e es where e: "utf8_encode_cp c = Some e" and es: "utf8_encode cs = Some es"
    and b: "b = e @ es"
    by (auto split: option.splits)
  from Cons.IH [OF es] have "utf8_decode es = Some cs" .
  with utf8_cp_roundtrip [OF e, of es] b show ?case by simp
qed

section \<open>Blank values\<close>

lemma strip_all_iff:
  "rev (dropWhile P (rev (dropWhile P s))) = [] \<longleftrightarrow> (\<forall>x \<in> set s. P x)"
proof (cases "dropWhile P s = []")
  case True
  moreover from True have "\<forall>x \<in> set s. P x" by simp
  ultimately show ?thesis by (simp del: dropWhile_eq_Nil_conv)
next
  case False
  then have "\<not> P (hd (dropWhile P s))" by (rule hd_dropWhile)
  moreover from False have "hd (dropWhile P s) \<in> set (dropWhile P s)" by simp
  ultimately have "dropWhile P (rev (dropWhile P s)) \<noteq> []"
    by auto
  with False show ?thesis by auto
qed

lemma str_strip_Nil_iff: "str_strip s = [] \<longleftrightarrow> (\<forall>c \<in> set s. py_isspace c)"
  by (simp only: str_strip_def strip_all_iff)

lemma bytes_strip_Nil_iff: "bytes_strip b = [] \<longleftrightarrow> (\<forall>c \<in> set b. bytes_isspace c)"
  by (simp only: bytes_strip_def strip_all_iff)

text \<open>
  C7. For every key \<open>k\<close> (of 32 bytes or any other length), every nonce drawn and every
  string \<open>p\<close> that is empty or consists only of whitespace, \<open>encrypt(k, p)\<close> is \<open>p\<close> and
  \<open>decrypt(k, p)\<close> is \<open>p\<close>: the value passes through unchanged and the cipher is never
  reached.
\<close>

theorem blank_pass_through:
  assumes "\<forall>c \<in> set p. py_isspace c"
  shows "encrypt E nonce k p = Inr (PStr p) \<and> decrypt E k (PStr p) = Inr (PStr p)"
proof -
  from assms have "is_empty_or_whitespace (PStr p)"
    by (simp add: is_empty_or_whitespace_def str_strip_Nil_iff)
  then show ?thesis
    by (simp add: encrypt_def decrypt_def)
qed

theorem blank_pass_through_witness:
  "py_isspace 32 \<and> py_isspace 9 \<and>
   encrypt demo_env (replicate 12 7) (replicate 32 1) [32, 9] = Inr (PStr [32, 9]) \<and>
   decrypt demo_env (replicate 32 1) (PStr [32, 9]) = Inr (PStr [32, 9])"
  using blank_pass_through [where p = "[32, 9]" and E = demo_env and nonce = "replicate 12 7"
      and k = "replicate 32 1"]
  by (simp add: py_isspace_def)

section \<open>The cipher\<close>

lemma encrypt_sealed:
  assumes "length k = 32" "length nonce = 12" "\<not> is_empty_or_whitespace (PStr p)"
    "utf8_encode p = Some data"
  shows "encrypt E nonce k p = Inr (PBytes (nonce @ gcm_encrypt E k nonce data))"
  using assms by (simp add: encrypt_def AESGCM_def aesgcm_encrypt_def)

lemma encrypt_unencodable:
  assumes "length k = 32" "\<not> is_empty_or_whitespace (PStr p)" "utf8_encode p = None"
  shows "encrypt E nonce k p = Inl UnicodeEncodeError"
  using assms by (simp add: encrypt_def AESGCM_def)

lemma encrypt_blank: "is_empty_or_whitespace (PStr p) \<Longrightarrow> encrypt E nonce k p = Inr (PStr p)"
  by (simp add: encrypt_def)

lemma decrypt_blank: "is_empty_or_whitespace c \<Longrightarrow> decrypt E k c = Inr c"
  by (simp add: decrypt_def)

lemma decrypt_sealed:
  assumes "length k = 32" "length nonce = 12"
    "\<not> is_empty_or_whitespace (PBytes (nonce @ ct))"
  shows "decrypt E k (PBytes (nonce @ ct)) =
     (case gcm_decrypt E k nonce ct of
        None \<Rightarrow> Inl InvalidTag
      | Some m \<Rightarrow>
          (case utf8_decode m of None \<Rightarrow> Inl UnicodeDecodeError | Some s \<Rightarrow> Inr (PStr s)))"
  using assms by (simp add: decrypt_def AESGCM_def aesgcm_decrypt_def split: option.splits)

lemma roundtrip_core:
  assumes "length k = 32" "length nonce = 12"
    "utf8_encode p = Some data"
    "gcm_decrypt E k nonce (gcm_encrypt E k nonce data) = Some data"
    "\<not> is_empty_or_whitespace (PBytes (nonce @ gcm_encrypt E k nonce data))"
  shows "decrypt E k (PBytes (nonce @ gcm_encrypt E k nonce data)) = Inr (PStr p)"
  using assms utf8_roundtrip [of p data] by (simp add: decrypt_sealed)

lemma encrypt_total:
  assumes "length key = 32" "length nonce = 12" "storable p"
  shows "\<exists>c. encrypt E nonce key p = Inr c \<and> c \<noteq> PNone \<and>
             (readable E key nonce p \<longrightarrow> decrypt E key c = Inr (PStr p))"
proof (cases "is_empty_or_whitespace (PStr p)")
  case True
  then show ?thesis by (simp add: encrypt_blank decrypt_blank)
next
  case False
  with assms(3) obtain data where data: "utf8_encode p = Some data"
    by (auto simp: storable_def)
  have "encrypt E nonce key p = Inr (PBytes (nonce @ gcm_encrypt E key nonce data))"
    using assms(1,2) False data by (rule encrypt_sealed)
  moreover have "decrypt E key (PBytes (nonce @ gcm_encrypt E key nonce data)) = Inr (PStr p)"
    if "readable E key nonce p"
    using that False data assms(1,2) by (simp add: readable_def roundtrip_core)
  ultimately show ?thesis by simp
qed

text \<open>The instance on the two-character string "p\'e", under the key of 32 bytes \<open>01\<close>.\<close>

lemma utf8_pe: "utf8_encode [112, 233] = Some [112, 195, 169]"
  by (simp add: utf8_encode_cp_def)

lemma demo_seal:
  "gcm_encrypt demo_env (replicate 32 1) nonce [112, 195, 169] = [112, 195, 169] @ replicate 16 1"
  by (simp add: demo_env_def demo_gcm_encrypt_def)

lemma demo_open:
  "gcm_decrypt demo_env (replicate 32 1) nonce ([112, 195, 169] @ replicate 16 1)
   = Some [112, 195, 169]"
  by (simp add: demo_env_def demo_gcm_decrypt_def)

lemma demo_reject:
  "gcm_decrypt demo_env (replicate 32 2) nonce ([112, 195, 169] @ replicate 16 1) = None"
  by (simp add: demo_env_def demo_gcm_decrypt_def)

lemma pe_not_blank: "\<not> is_empty_or_whitespace (PStr [112, 233])"
  by (simp add: is_empty_or_whitespace_def str_strip_Nil_iff py_isspace_def)

lemma sealed_pe_not_blank:
  "\<not> is_empty_or_whitespace (PBytes (nonce @ [112, 195, 169] @ replicate 16 1))"
  by (simp add: is_empty_or_whitespace_def bytes_strip_Nil_iff bytes_isspace_def)

lemma space_blank: "is_empty_or_whitespace (PStr [32])"
  by (simp add: is_empty_or_whitespace_def str_strip_Nil_iff py_isspace_def)

lemma surrogate_not_blank: "\<not> is_empty_or_whitespace (PStr [0xD800])"
  by (simp add: is_empty_or_whitespace_def str_strip_Nil_iff py_isspace_def)

lemma surrogate_unencodable: "utf8_encode [0xD800] = None"
  by (simp add: utf8_encode_cp_def)

text \<open>
  C2, as stated, fails: the one-character string holding the lone surrogate \<open>U+D800\<close>
  is neither empty nor whitespace, and \<open>encrypt\<close> raises \<open>UnicodeEncodeError\<close> on it
  (before the cipher is used, so whatever the cipher).
\<close>

theorem encrypt_lone_surrogate_counterexample:
  "length (replicate 32 (1 :: byte)) = 32 \<and> \<not> is_empty_or_whitespace (PStr [0xD800]) \<and>
   encrypt demo_env (replicate 12 7) (replicate 32 1) [0xD800] = Inl UnicodeEncodeError"
proof -
  have k: "length (replicate 32 (1 :: byte)) = 32" by simp
  from k surrogate_not_blank encrypt_unencodable [OF k surrogate_not_blank surrogate_unencodable]
  show ?thesis by (intro conjI)
qed

text \<open>
  C2, amended. For every 32-byte key \<open>k\<close>, every 12-byte nonce drawn and every string
  \<open>p\<close> that is not blank and encodes as UTF-8: if the cipher opens under \<open>k\<close> what it
  sealed under \<open>k\<close>, and nonce and ciphertext are not, all of them, ASCII whitespace
  octets (which \<open>decrypt\<close> would hand back as they are), then \<open>encrypt(k, p)\<close> is the
  nonce followed by the ciphertext and \<open>decrypt\<close> of that under \<open>k\<close> is \<open>p\<close>.
\<close>

theorem encrypt_decrypt_roundtrip:
  assumes "length k = 32" and "length nonce = 12"
    and "\<not> is_empty_or_whitespace (PStr p)"
    and "utf8_encode p = Some data"
    and "gcm_decrypt E k nonce (gcm_encrypt E k nonce data) = Some data"
    and "\<not> is_empty_or_whitespace (PBytes (nonce @ gcm_encrypt E k nonce data))"
  shows "encrypt E nonce k p = Inr (PBytes (nonce @ gcm_encrypt E k nonce data)) \<and>
         decrypt E k (PBytes (nonce @ gcm_encrypt E k nonce data)) = Inr (PStr p)"
  using assms by (simp add: encrypt_sealed roundtrip_core)

theorem encrypt_decrypt_roundtrip_witness:
  "encrypt demo_env (replicate 12 7) (replicate 32 1) [112, 233]
     = Inr (PBytes (replicate 12 7 @ [112, 195, 169] @ replicate 16 1)) \<and>
   decrypt demo_env (replicate 32 1) (PBytes (replicate 12 7 @ [112, 195, 169] @ replicate 16 1))
     = Inr (PStr [112, 233])"
proof -
  have k: "length (replicate 32 (1 :: byte)) = 32" and n: "length (replicate 12 (7 :: byte)) = 12"
    by simp_all
  have opens: "gcm_decrypt demo_env (replicate 32 1) (replicate 12 7)
      (gcm_encrypt demo_env (replicate 32 1) (replicate 12 7) [112, 195, 169])
      = Some [112, 195, 169]"
    by (simp only: demo_seal demo_open)
  have visible: "\<not> is_empty_or_whitespace (PBytes (replicate 12 7 @
      gcm_encrypt demo_env (replicate 32 1) (replicate 12 7) [112, 195, 169]))"
    by (simp only: demo_seal sealed_pe_not_blank not_False_eq_True)
  from encrypt_decrypt_roundtrip [OF k n pe_not_blank utf8_pe opens visible,
      unfolded demo_seal]
  show ?thesis .
qed

text \<open>
  C9, as stated, fails: the string of one space is not empty, and two calls of
  \<open>encrypt\<close> with distinct nonces both return it unchanged.
\<close>

theorem encrypt_space_twice_counterexample:
  "[32] \<noteq> ([] :: pystr) \<and> replicate 12 (7 :: byte) \<noteq> replicate 12 8 \<and>
   encrypt demo_env (replicate 12 7) (replicate 32 1) [32] = Inr (PStr [32]) \<and>
   encrypt demo_env (replicate 12 8) (replicate 32 1) [32] = Inr (PStr [32])"
  by (simp add: encrypt_blank space_blank)

text \<open>
  C9, amended. For every 32-byte key \<open>k\<close> and every string \<open>p\<close> that is not blank and
  encodes as UTF-8, two calls of \<open>encrypt(k, p)\<close> that draw distinct 12-byte nonces
  return different byte strings; and each of the two decrypts under \<open>k\<close> to \<open>p\<close>, if the
  cipher opens under \<open>k\<close> what it sealed with that nonce and the output is not all ASCII
  whitespace octets.
\<close>

theorem fresh_nonces_differ:
  assumes "length k = 32" and "length n1 = 12" and "length n2 = 12" and "n1 \<noteq> n2"
    and "\<not> is_empty_or_whitespace (PStr p)"
    and "utf8_encode p = Some data"
    and "gcm_decrypt E k n1 (gcm_encrypt E k n1 data) = Some data"
    and "gcm_decrypt E k n2 (gcm_encrypt E k n2 data) = Some data"
    and "\<not> is_empty_or_whitespace (PBytes (n1 @ gcm_encrypt E k n1 data))"
    and "\<not> is_empty_or_whitespace (PBytes (n2 @ gcm_encrypt E k n2 data))"
  shows "encrypt E n1 k p = Inr (PBytes (n1 @ gcm_encrypt E k n1 data)) \<and>
         encrypt E n2 k p = Inr (PBytes (n2 @ gcm_encrypt E k n2 data)) \<and>
         n1 @ gcm_encrypt E k n1 data \<noteq> n2 @ gcm_encrypt E k n2 data \<and>
         decrypt E k (PBytes (n1 @ gcm_encrypt E k n1 data)) = Inr (PStr p) \<and>
         decrypt E k (PBytes (n2 @ gcm_encrypt E k n2 data)) = Inr (PStr p)"
proof -
  have "n1 @ gcm_encrypt E k n1 data \<noteq> n2 @ gcm_encrypt E k n2 data"
    using assms(2-4) by simp
  with assms show ?thesis
    by (simp add: encrypt_sealed roundtrip_core)
qed

theorem fresh_nonces_differ_witness:
  "encrypt demo_env (replicate 12 7) (replicate 32 1) [112, 233]
     = Inr (PBytes (replicate 12 7 @ [112, 195, 169] @ replicate 16 1)) \<and>
   encrypt demo_env (replicate 12 8) (replicate 32 1) [112, 233]
     = Inr (PBytes (replicate 12 8 @ [112, 195, 169] @ replicate 16 1)) \<and>
   replicate 12 (7 :: byte) @ [112, 195, 169] @ replicate 16 1
     \<noteq> replicate 12 8 @ [112, 195, 169] @ replicate 16 1 \<and>
   decrypt demo_env (replicate 32 1) (PBytes (replicate 12 7 @ [112, 195, 169] @ replicate 16 1))
     = Inr (PStr [112, 233]) \<and>
   decrypt demo_env (replicate 32 1) (PBytes (replicate 12 8 @ [112, 195, 169] @ replicate 16 1))
     = Inr (PStr [112, 233])"
proof -
  have k: "length (replicate 32 (1 :: byte)) = 32" and n1: "length (replicate 12 (7 :: byte)) = 12"
    and n2: "length (replicate 12 (8 :: byte)) = 12"
    and ne: "replicate 12 (7 :: byte) \<noteq> replicate 12 8"
    by simp_all
  have opens: "gcm_decrypt demo_env (replicate 32 1) nonce
      (gcm_encrypt demo_env (replicate 32 1) nonce [112, 195, 169]) = Some [112, 195, 169]"
    for nonce
    by (simp only: demo_seal demo_open)
  have visible: "\<not> is_empty_or_whitespace (PBytes (nonce @
      gcm_encrypt demo_env (replicate 32 1) nonce [112, 195, 169]))" for nonce
    by (simp only: demo_seal sealed_pe_not_blank not_False_eq_True)
  from fresh_nonces_differ [OF k n1 n2 ne pe_not_blank utf8_pe opens opens visible visible,
      unfolded demo_seal]
  show ?thesis .
qed

text \<open>
  C6, as stated, fails: \<open>encrypt\<close> under one key returns the string of one space as it
  is, a non-empty output, and \<open>decrypt\<close> of it under another key returns it too, with no
  authentication error.
\<close>

theorem decrypt_space_wrong_key_counterexample:
  "encrypt demo_env (replicate 12 7) (replicate 32 1) [32] = Inr (PStr [32]) \<and>
   PStr [32] \<noteq> PStr [] \<and> replicate 32 (2 :: byte) \<noteq> replicate 32 1 \<and>
   decrypt demo_env (replicate 32 2) (PStr [32]) = Inr (PStr [32])"
  by (simp add: encrypt_blank decrypt_blank space_blank)

text \<open>
  C6, amended. For every 32-byte key \<open>k\<close> and every byte string \<open>c\<close> of at least 12
  bytes that is not all ASCII whitespace octets (such are the outputs of \<open>encrypt\<close> on
  strings that are not blank, under this or any other key, and what tampering makes of
  them): if the cipher rejects the tag of \<open>c\<close> under \<open>k\<close>, \<open>decrypt(k, c)\<close> raises
  \<open>InvalidTag\<close> to its caller; and whenever \<open>decrypt(k, c)\<close> returns a value, it is the
  decoding of the plaintext the cipher authenticated under \<open>k\<close>.
\<close>

theorem decrypt_propagates_invalid_tag:
  assumes "length k = 32" and "12 \<le> length c" and "\<not> is_empty_or_whitespace (PBytes c)"
  shows "(gcm_decrypt E k (take 12 c) (drop 12 c) = None \<longrightarrow>
            decrypt E k (PBytes c) = Inl InvalidTag) \<and>
         (\<forall>v. decrypt E k (PBytes c) = Inr v \<longrightarrow>
            (\<exists>m s. gcm_decrypt E k (take 12 c) (drop 12 c) = Some m \<and>
                   utf8_decode m = Some s \<and> v = PStr s))"
proof -
  have "length (take 12 c) = 12" using assms(2) by simp
  moreover have "\<not> is_empty_or_whitespace (PBytes (take 12 c @ drop 12 c))"
    using assms(3) by simp
  ultimately have "decrypt E k (PBytes (take 12 c @ drop 12 c)) =
     (case gcm_decrypt E k (take 12 c) (drop 12 c) of
        None \<Rightarrow> Inl InvalidTag
      | Some m \<Rightarrow>
          (case utf8_decode m of None \<Rightarrow> Inl UnicodeDecodeError | Some s \<Rightarrow> Inr (PStr s)))"
    using assms(1) by (rule decrypt_sealed [rotated 1])
  then show ?thesis by (auto split: option.splits)
qed

theorem decrypt_propagates_invalid_tag_witness:
  "gcm_decrypt demo_env (replicate 32 2) (replicate 12 7) ([112, 195, 169] @ replicate 16 1) = None \<and>
   decrypt demo_env (replicate 32 2) (PBytes (replicate 12 7 @ [112, 195, 169] @ replicate 16 1))
     = Inl InvalidTag"
proof -
  have k: "length (replicate 32 (2 :: byte)) = 32"
    and c: "12 \<le> length (replicate 12 (7 :: byte) @ [112, 195, 169] @ replicate 16 1)"
    and nonce: "take 12 (replicate 12 (7 :: byte) @ [112, 195, 169] @ replicate 16 1)
      = replicate 12 7"
    and sealed: "drop 12 (replicate 12 (7 :: byte) @ [112, 195, 169] @ replicate 16 1)
      = [112, 195, 169] @ replicate 16 1"
    by simp_all
  from decrypt_propagates_invalid_tag [OF k c sealed_pe_not_blank, of demo_env]
  have "decrypt demo_env (replicate 32 2)
      (PBytes (replicate 12 7 @ [112, 195, 169] @ replicate 16 1)) = Inl InvalidTag"
    by (simp only: nonce sealed demo_reject simp_thms)
  with demo_reject show ?thesis by (intro conjI)
qed

section \<open>The table of accounts\<close>

lemma query_absent:
  "sqlite_integer uid \<Longrightarrow> uid \<notin> set (map (\<lambda>a. int (id_col a)) rows) \<Longrightarrow>
   query_by_id uid rows = Inr None"
  by (auto simp: query_by_id_def find_None_iff)

lemma query_overflow: "\<not> sqlite_integer uid \<Longrightarrow> query_by_id uid rows = Inl OverflowError"
  by (simp add: query_by_id_def)

lemma query_found:
  "query_by_id uid rows = Inr (Some a) \<Longrightarrow> sqlite_integer uid \<and> int (id_col a) = uid \<and> a \<in> set rows"
  by (auto simp: query_by_id_def find_Some_iff split: if_splits)

lemma update_row_length: "length (update_row uid f rows) = length rows"
  by (simp add: update_row_def)

lemma update_row_nth:
  "i < length rows \<Longrightarrow>
   update_row uid f rows ! i = (if id_col (rows ! i) = uid then f (rows ! i) else rows ! i)"
  by (simp add: update_row_def)

text \<open>Running the model on the vault above.\<close>

lemma demo_query_master: "query_by_id 1 (accounts demo_vault) = Inr (Some demo_master_row)"
  by (simp add: query_by_id_def sqlite_integer_def demo_vault_def demo_master_row_def)

lemma demo_query_account: "query_by_id 2 (accounts demo_vault) = Inr (Some demo_account_row)"
  by (simp add: query_by_id_def sqlite_integer_def demo_vault_def demo_master_row_def
      demo_account_row_def)

lemma demo_ids: "map (\<lambda>a. int (id_col a)) (accounts demo_vault) = [1, 2]"
  by (simp add: demo_vault_def demo_master_row_def demo_account_row_def)

lemma demo_build_path:
  "build_key_file_path demo_env (Some (str_lit ''010101010101010'')) = Inr demo_key_path"
  by (simp add: build_key_file_path_def demo_env_def os_path_join_def KEY_FILE_EXTENSION_def
      demo_key_path_def str_lit_def)

lemma demo_read_key:
  "read_key_from_file demo_env (key_file demo_account_row) (keys demo_vault) = Inr (replicate 32 1)"
  by (simp add: read_key_from_file_def demo_build_path demo_account_row_def demo_vault_def)

text \<open>
  C10. When the query for \<open>uid\<close> returns a row with a null \<open>key_file\<close>, as the sentinel
  master row has, \<open>delete_account(uid)\<close> raises \<open>TypeError\<close> (from building the path of
  the key file out of \<open>None\<close>) before the commit: the table and the files are as before.
\<close>

theorem delete_null_key_file_raises:
  assumes "query_by_id uid (accounts st) = Inr (Some a)" and "key_file a = None"
  shows "delete_account E io_ok uid st = (Inl TypeError, st)"
  using assms by (simp add: delete_account_def delete_key_file_def build_key_file_path_def)

theorem delete_null_key_file_raises_witness:
  "query_by_id 1 (accounts demo_vault) = Inr (Some demo_master_row) \<and>
   key_file demo_master_row = None \<and>
   delete_account demo_env True 1 demo_vault = (Inl TypeError, demo_vault)"
proof -
  have null: "key_file demo_master_row = None" by (simp add: demo_master_row_def)
  from demo_query_master null delete_null_key_file_raises [OF demo_query_master null]
  show ?thesis by (intro conjI)
qed

text \<open>
  C4. \<open>update_account(uid, column, value)\<close> raises an error when the table has no row
  with id \<open>uid\<close> (\<open>ValueError\<close> for a \<open>uid\<close> that SQLite can bind, \<open>OverflowError\<close>
  from the query for one outside 64 bits), and raises an error when \<open>column\<close> is none
  of Website, Notes, Email, Username, Password; in both cases the table and the files are
  as before.
\<close>

theorem update_account_rejects:
  "(uid \<notin> set (map (\<lambda>a. int (id_col a)) (accounts st)) \<longrightarrow>
      update_account E nonce uid column_updated new_value st
        = (Inl (if sqlite_integer uid then ValueError (AccountNotFound uid) else OverflowError),
           st)) \<and>
   (column_updated \<noteq> str_lit ''Website'' \<and> column_updated \<noteq> str_lit ''Notes'' \<and>
    column_updated \<noteq> str_lit ''Email'' \<and> column_updated \<noteq> str_lit ''Username'' \<and>
    column_updated \<noteq> str_lit ''Password'' \<longrightarrow>
      (\<exists>e. update_account E nonce uid column_updated new_value st = (Inl e, st)))"
proof (intro conjI impI)
  assume absent: "uid \<notin> set (map (\<lambda>a. int (id_col a)) (accounts st))"
  show "update_account E nonce uid column_updated new_value st
      = (Inl (if sqlite_integer uid then ValueError (AccountNotFound uid) else OverflowError), st)"
  proof (cases "sqlite_integer uid")
    case True
    with absent have "query_by_id uid (accounts st) = Inr None" by (rule query_absent [rotated])
    with True show ?thesis by (simp add: update_account_def)
  next
    case False
    then have "query_by_id uid (accounts st) = Inl OverflowError" by (rule query_overflow)
    with False show ?thesis by (simp add: update_account_def)
  qed
next
  assume invalid: "column_updated \<noteq> str_lit ''Website'' \<and> column_updated \<noteq> str_lit ''Notes'' \<and>
    column_updated \<noteq> str_lit ''Email'' \<and> column_updated \<noteq> str_lit ''Username'' \<and>
    column_updated \<noteq> str_lit ''Password''"
  show "\<exists>e. update_account E nonce uid column_updated new_value st = (Inl e, st)"
  proof (cases "query_by_id uid (accounts st)")
    case (Inl e)
    then show ?thesis by (simp add: update_account_def)
  next
    case (Inr found)
    show ?thesis
    proof (cases found)
      case None
      with Inr show ?thesis by (simp add: update_account_def)
    next
      case (Some row)
      show ?thesis
      proof (cases "if \<not> is_empty_or_whitespace (PStr new_value)
                   then (case read_key_from_file E (key_file row) (keys st) of
                           Inl e \<Rightarrow> Inl e
                         | Inr key \<Rightarrow> encrypt E nonce key new_value)
                   else Inr (PStr new_value)")
        case (Inl e)
        with Inr Some show ?thesis by (simp add: update_account_def)
      next
        case inner: (Inr v)
        with Inr Some invalid show ?thesis by (simp add: update_account_def)
      qed
    qed
  qed
qed

theorem update_account_rejects_witness:
  "999 \<notin> set (map (\<lambda>a. int (id_col a)) (accounts demo_vault)) \<and>
   update_account demo_env (replicate 12 9) 999 (str_lit ''Website'') [120] demo_vault
     = (Inl (ValueError (AccountNotFound 999)), demo_vault) \<and>
   update_account demo_env (replicate 12 9) (2 ^ 63) (str_lit ''Website'') [120] demo_vault
     = (Inl OverflowError, demo_vault) \<and>
   (\<exists>e. update_account demo_env (replicate 12 9) 2 (str_lit ''Phone'') [120] demo_vault
          = (Inl e, demo_vault))"
proof -
  have absent: "999 \<notin> set (map (\<lambda>a. int (id_col a)) (accounts demo_vault))"
    and beyond: "2 ^ 63 \<notin> set (map (\<lambda>a. int (id_col a)) (accounts demo_vault))"
    by (simp_all add: demo_ids)
  have invalid: "str_lit ''Phone'' \<noteq> str_lit ''Website'' \<and> str_lit ''Phone'' \<noteq> str_lit ''Notes'' \<and>
    str_lit ''Phone'' \<noteq> str_lit ''Email'' \<and> str_lit ''Phone'' \<noteq> str_lit ''Username'' \<and>
    str_lit ''Phone'' \<noteq> str_lit ''Password''"
    by (simp add: str_lit_def)
  have fits: "sqlite_integer 999" and overflows: "\<not> sqlite_integer (2 ^ 63)"
    by (simp_all add: sqlite_integer_def)
  have not_found: "update_account demo_env (replicate 12 9) 999 (str_lit ''Website'') [120] demo_vault
     = (Inl (ValueError (AccountNotFound 999)), demo_vault)"
    using update_account_rejects [where uid = 999 and st = demo_vault and E = demo_env
      and nonce = "replicate 12 9" and column_updated = "str_lit ''Website''"
      and new_value = "[120]", THEN conjunct1, rule_format, OF absent]
    by (simp only: fits if_True)
  have overflow: "update_account demo_env (replicate 12 9) (2 ^ 63) (str_lit ''Website'') [120]
      demo_vault = (Inl OverflowError, demo_vault)"
    using update_account_rejects [where uid = "2 ^ 63" and st = demo_vault and E = demo_env
      and nonce = "replicate 12 9" and column_updated = "str_lit ''Website''"
      and new_value = "[120]", THEN conjunct1, rule_format, OF beyond]
    by (simp only: overflows if_False)
  from absent not_found overflow
    update_account_rejects [where uid = 2 and st = demo_vault and E = demo_env
      and nonce = "replicate 12 9" and column_updated = "str_lit ''Phone''"
      and new_value = "[120]", THEN conjunct2, rule_format, OF invalid]
  show ?thesis by (intro conjI)
qed

text \<open>
  C5. A successful \<open>update_account(uid, column, value)\<close> leaves the files, the number
  and order of rows and every row with another id as they were, and in the rows with id
  \<open>uid\<close> changes nothing but the named column.
\<close>

theorem update_account_frame:
  assumes "update_account E nonce uid column_updated new_value st = (Inr (), st')"
  shows "keys st' = keys st \<and> length (accounts st') = length (accounts st) \<and>
    (\<forall>i < length (accounts st).
       (int (id_col (accounts st ! i)) \<noteq> uid \<longrightarrow> accounts st' ! i = accounts st ! i) \<and>
       only_column_changed column_updated (accounts st ! i) (accounts st' ! i))"
proof (cases "query_by_id uid (accounts st)")
  case (Inl e)
  with assms show ?thesis by (simp add: update_account_def)
next
  case (Inr found)
  show ?thesis
  proof (cases found)
    case None
    with Inr assms show ?thesis by (simp add: update_account_def)
  next
    case (Some row)
    with Inr have "int (id_col row) = uid" by (simp add: query_found)
    then have same: "id_col a = id_col row \<longleftrightarrow> int (id_col a) = uid" for a by auto
    from assms Inr Some show ?thesis
      by (auto simp: update_account_def update_row_length update_row_nth only_column_changed_def
          same split: sum.splits if_splits)
  qed
qed

lemma demo_encrypt_pe:
  "length nonce = 12 \<Longrightarrow>
   encrypt demo_env nonce (replicate 32 1) [112, 233]
     = Inr (PBytes (nonce @ [112, 195, 169] @ replicate 16 1))"
  using encrypt_sealed [of "replicate 32 1" nonce "[112, 233]" "[112, 195, 169]" demo_env]
  by (simp only: length_replicate pe_not_blank utf8_pe demo_seal simp_thms)

lemma demo_update_notes:
  "update_account demo_env (replicate 12 9) 2 (str_lit ''Notes'') [112, 233] demo_vault
     = (Inr (), demo_vault\<lparr>accounts :=
          [demo_master_row,
           demo_account_row\<lparr>notes := PBytes (replicate 12 9 @ [112, 195, 169] @ replicate 16 1)\<rparr>]\<rparr>)"
proof -
  have sealed: "(if \<not> is_empty_or_whitespace (PStr [112, 233])
       then (case read_key_from_file demo_env (key_file demo_account_row) (keys demo_vault) of
               Inl e \<Rightarrow> Inl e
             | Inr key \<Rightarrow> encrypt demo_env (replicate 12 9) key [112, 233])
       else Inr (PStr [112, 233]))
     = Inr (PBytes (replicate 12 9 @ [112, 195, 169] @ replicate 16 1))"
    by (simp add: pe_not_blank demo_read_key demo_encrypt_pe)
  have rows: "update_row (id_col demo_account_row) (\<lambda>a. a\<lparr>notes := v\<rparr>) (accounts demo_vault)
     = [demo_master_row, demo_account_row\<lparr>notes := v\<rparr>]" for v
    by (simp add: update_row_def demo_vault_def demo_master_row_def demo_account_row_def)
  have column: "str_lit ''Notes'' \<noteq> str_lit ''Website''"
    by (simp add: str_lit_def)
  show ?thesis
    unfolding update_account_def demo_query_account sum.case option.case sealed rows
    using column by simp
qed

theorem update_account_frame_witness:
  "update_account demo_env (replicate 12 9) 2 (str_lit ''Notes'') [112, 233] demo_vault
     = (Inr (), demo_vault\<lparr>accounts :=
          [demo_master_row,
           demo_account_row\<lparr>notes := PBytes (replicate 12 9 @ [112, 195, 169] @ replicate 16 1)\<rparr>]\<rparr>) \<and>
   only_column_changed (str_lit ''Notes'') demo_account_row
     (demo_account_row\<lparr>notes := PBytes (replicate 12 9 @ [112, 195, 169] @ replicate 16 1)\<rparr>)"
proof -
  note frame = update_account_frame [OF demo_update_notes, THEN conjunct2, THEN conjunct2,
      rule_format, of 1, THEN conjunct2]
  have "only_column_changed (str_lit ''Notes'') demo_account_row
     (demo_account_row\<lparr>notes := PBytes (replicate 12 9 @ [112, 195, 169] @ replicate 16 1)\<rparr>)"
    using frame by (simp add: demo_vault_def)
  with demo_update_notes show ?thesis by (intro conjI)
qed

text \<open>
  An update succeeds when the query returns a row, the column is one of the five, the
  key of the row can be read and has 32 bytes, and the new value is blank or encodes as
  UTF-8.
\<close>

lemma update_account_succeeds:
  assumes row: "query_by_id uid (accounts st) = Inr (Some row)"
    and column: "column_updated = str_lit ''Website'' \<or> column_updated = str_lit ''Notes'' \<or>
      column_updated = str_lit ''Email'' \<or> column_updated = str_lit ''Username'' \<or>
      column_updated = str_lit ''Password''"
    and key: "read_key_from_file E (key_file row) (keys st) = Inr key" "length key = 32"
    and nonce: "length nonce = 12"
    and new_value: "storable new_value"
  shows "\<exists>st'. update_account E nonce uid column_updated new_value st = (Inr (), st')"
proof -
  from encrypt_total [OF key(2) nonce new_value, of E] obtain c where
    c: "encrypt E nonce key new_value = Inr c" by blast
  have "(if \<not> is_empty_or_whitespace (PStr new_value)
         then (case read_key_from_file E (key_file row) (keys st) of
                 Inl e \<Rightarrow> Inl e
               | Inr key \<Rightarrow> encrypt E nonce key new_value)
         else Inr (PStr new_value))
      = Inr (if \<not> is_empty_or_whitespace (PStr new_value) then c else PStr new_value)"
    by (simp add: key(1) c)
  then show ?thesis
    unfolding update_account_def row sum.case option.case using column by auto
qed




section \<open>The master password\<close>

lemma find_snoc:
  "find P (xs @ [x]) = (case find P xs of None \<Rightarrow> (if P x then Some x else None) | Some y \<Rightarrow> Some y)"
  by (induction xs) auto

lemma find_username_None:
  "find (\<lambda>a. username a = v) rows = None \<longleftrightarrow> v \<notin> set (map username rows)"
  by (auto simp: find_None_iff)

lemma demo_secret_hash:
  "hexdigest (sha256 demo_env [115, 101, 99, 114, 101, 116])
   = str_lit ''7365637265740000000000000000000000000000000000000000000000000000''"
  by code_simp

lemma utf8_secret: "utf8_encode (str_lit ''secret'') = Some [115, 101, 99, 114, 101, 116]"
  by code_simp

lemma utf8_wrong: "utf8_encode (str_lit ''wrong'') = Some [119, 114, 111, 110, 103]"
  by code_simp

lemma demo_wrong_hash:
  "hexdigest (sha256 demo_env [119, 114, 111, 110, 103])
   \<noteq> str_lit ''7365637265740000000000000000000000000000000000000000000000000000''"
  by code_simp

lemma demo_no_master:
  "PStr (str_lit ''master'') \<notin> set (map username (accounts demo_empty_vault))"
  by (simp add: demo_empty_vault_def)

lemma demo_has_master:
  "find (\<lambda>a. username a = PStr (str_lit ''master'')) (accounts demo_master_vault)
     = Some demo_master_row \<and>
   password demo_master_row
     = PStr (str_lit ''7365637265740000000000000000000000000000000000000000000000000000'')"
  by (simp add: demo_master_vault_def demo_master_row_def)

text \<open>
  C8, as stated, fails: with no sentinel row in the table, \<open>login\<close> on the candidate
  made of the lone surrogate \<open>U+D800\<close> cannot encode it, ends in the error dialog, and
  stores nothing.
\<close>

theorem login_lone_surrogate_counterexample:
  "fetch_master_password demo_empty_vault = PNone \<and>
   login demo_env [0xD800] demo_empty_vault = (Critical UnicodeEncodeError, demo_empty_vault)"
proof -
  have unset: "fetch_master_password demo_empty_vault = PNone"
    by (simp add: fetch_master_password_def demo_empty_vault_def)
  have "login demo_env [0xD800] demo_empty_vault
      = (Critical UnicodeEncodeError, demo_empty_vault)"
    unfolding login_def unset surrogate_unencodable by simp
  with unset show ?thesis by (intro conjI)
qed

text \<open>
  C8, amended. \<open>login\<close> is a machine of two states. With no sentinel row in the table,
  \<open>login(candidate)\<close>, for a candidate that encodes as UTF-8, appends the sentinel row
  (\<open>username = "master"\<close>, no key id) holding the hex digest of the candidate, which
  \<open>fetch_master_password\<close> then returns, and reports that the master password is set.
  With a sentinel row holding a digest, \<open>login(candidate)\<close> never changes the table or
  the files, whatever the candidate; for a candidate that encodes, it lets the user in
  if the digest of the candidate equals the stored one and reports an incorrect password
  otherwise.
\<close>

theorem login_two_states:
  "(PStr (str_lit ''master'') \<notin> set (map username (accounts st)) \<and>
    utf8_encode candidate = Some b \<longrightarrow>
      login E candidate st
        = (MasterPasswordSet,
           st\<lparr>accounts := accounts st @
              [\<lparr>id_col = next_id (accounts st), key_file = None, website = PNone,
                notes = PNone, email = PNone, username = PStr (str_lit ''master''),
                password = PStr (hexdigest (sha256 E b))\<rparr>]\<rparr>) \<and>
      fetch_master_password (snd (login E candidate st)) = PStr (hexdigest (sha256 E b))) \<and>
   (find (\<lambda>a. username a = PStr (str_lit ''master'')) (accounts st) = Some a \<and>
    password a = PStr stored \<longrightarrow>
      snd (login E candidate st) = st \<and>
      (utf8_encode candidate = Some b \<longrightarrow>
         fst (login E candidate st)
           = (if hexdigest (sha256 E b) = stored then LoggedIn else IncorrectMasterPassword)))"
proof (intro conjI impI)
  assume unset: "PStr (str_lit ''master'') \<notin> set (map username (accounts st)) \<and>
    utf8_encode candidate = Some b"
  then have "PStr (str_lit ''master'') \<notin> set (map username (accounts st))" ..
  then have none: "find (\<lambda>a. username a = PStr (str_lit ''master'')) (accounts st) = None"
    by (rule find_username_None [THEN iffD2])
  with unset show first: "login E candidate st
        = (MasterPasswordSet,
           st\<lparr>accounts := accounts st @
              [\<lparr>id_col = next_id (accounts st), key_file = None, website = PNone,
                notes = PNone, email = PNone, username = PStr (str_lit ''master''),
                password = PStr (hexdigest (sha256 E b))\<rparr>]\<rparr>)"
    by (simp add: login_def fetch_master_password_def hash_str_def set_master_password_def
        insert_account_def)
  show "fetch_master_password (snd (login E candidate st)) = PStr (hexdigest (sha256 E b))"
    unfolding first using none by (simp add: fetch_master_password_def find_snoc)
next
  assume set: "find (\<lambda>a. username a = PStr (str_lit ''master'')) (accounts st) = Some a \<and>
    password a = PStr stored"
  then have stored: "fetch_master_password st = PStr stored"
    by (simp add: fetch_master_password_def)
  show "snd (login E candidate st) = st"
    by (simp add: login_def stored hash_str_def split: option.splits)
  show "fst (login E candidate st)
           = (if hexdigest (sha256 E b) = stored then LoggedIn else IncorrectMasterPassword)"
    if "utf8_encode candidate = Some b"
    using that by (simp add: login_def stored hash_str_def)
qed

theorem login_two_states_witness:
  "login demo_env (str_lit ''secret'') demo_empty_vault = (MasterPasswordSet, demo_master_vault) \<and>
   fetch_master_password demo_master_vault
     = PStr (str_lit ''7365637265740000000000000000000000000000000000000000000000000000'') \<and>
   login demo_env (str_lit ''wrong'') demo_master_vault
     = (IncorrectMasterPassword, demo_master_vault) \<and>
   login demo_env (str_lit ''secret'') demo_master_vault = (LoggedIn, demo_master_vault)"
proof -
  note unset = login_two_states [where st = demo_empty_vault and E = demo_env
      and candidate = "str_lit ''secret''" and b = "[115, 101, 99, 114, 101, 116]",
      THEN conjunct1, rule_format, OF conjI, OF demo_no_master utf8_secret,
      unfolded demo_secret_hash]
  have first: "login demo_env (str_lit ''secret'') demo_empty_vault
      = (MasterPasswordSet, demo_master_vault)"
    using unset [THEN conjunct1]
    by (simp add: demo_empty_vault_def demo_master_vault_def demo_master_row_def next_id_def)
  have stored: "fetch_master_password demo_master_vault
     = PStr (str_lit ''7365637265740000000000000000000000000000000000000000000000000000'')"
    using unset [THEN conjunct2] by (simp only: first snd_conv)
  note wrong = login_two_states [where st = demo_master_vault and E = demo_env
      and candidate = "str_lit ''wrong''" and b = "[119, 114, 111, 110, 103]"
      and a = demo_master_row, THEN conjunct2, rule_format, OF demo_has_master]
  note right = login_two_states [where st = demo_master_vault and E = demo_env
      and candidate = "str_lit ''secret''" and b = "[115, 101, 99, 114, 101, 116]"
      and a = demo_master_row, THEN conjunct2, rule_format, OF demo_has_master]
  have second: "login demo_env (str_lit ''wrong'') demo_master_vault
     = (IncorrectMasterPassword, demo_master_vault)"
    using wrong [THEN conjunct1] wrong [THEN conjunct2, rule_format, OF utf8_wrong]
    by (simp add: prod_eq_iff demo_wrong_hash)
  have third: "login demo_env (str_lit ''secret'') demo_master_vault
     = (LoggedIn, demo_master_vault)"
    using right [THEN conjunct1] right [THEN conjunct2, rule_format, OF utf8_secret]
    by (simp add: prod_eq_iff demo_secret_hash)
  from first stored second third show ?thesis by (intro conjI)
qed

section \<open>Saving an account\<close>

lemma fold_max_start: "(y :: nat) \<le> fold max xs y"
proof (induction xs arbitrary: y)
  case Nil
  show ?case by simp
next
  case (Cons a xs)
  have "y \<le> max a y" by simp
  also have "\<dots> \<le> fold max xs (max a y)" by (rule Cons.IH)
  finally show ?case by simp
qed

lemma fold_max_member: "x \<in> set xs \<Longrightarrow> (x :: nat) \<le> fold max xs y"
proof (induction xs arbitrary: y)
  case Nil
  then show ?case by simp
next
  case (Cons a xs)
  show ?case
  proof (cases "x = a")
    case True
    have "x \<le> max a y" using True by simp
    also have "\<dots> \<le> fold max xs (max a y)" by (rule fold_max_start)
    finally show ?thesis by simp
  next
    case False
    with Cons.prems have "x \<in> set xs" by simp
    then show ?thesis by (simp add: Cons.IH)
  qed
qed

lemma next_id_fresh: "next_id rows \<notin> set (map id_col rows)"
proof -
  have "\<forall>a \<in> set rows. id_col a < next_id rows"
    by (auto simp: next_id_def less_Suc_eq_le intro: fold_max_member)
  then show ?thesis by auto
qed

text \<open>
  A key id that is already in the table: the commit fails on the UNIQUE column, nothing
  is inserted and the key file is not written.
\<close>

lemma save_account_duplicate_key_id:
  assumes "length key = 32"
    and "length n1 = 12" "length n2 = 12" "length n3 = 12" "length n4 = 12" "length n5 = 12"
    and "storable website'" "storable notes'" "storable email'" "storable username'"
      "storable password'"
    and h: "hash_str E (PBytes key) = Inr h"
    and taken: "Some (take 15 h) \<in> set (map key_file (accounts st))"
  shows "save_account E key n1 n2 n3 n4 n5 io_ok website' notes' email' username' password' st
     = (Inl IntegrityError, st)"
proof -
  from encrypt_total [OF assms(1,2,7), of E] obtain w where
    w: "encrypt E n1 key website' = Inr w" by blast
  from encrypt_total [OF assms(1,3,8), of E] obtain n where
    n: "encrypt E n2 key notes' = Inr n" by blast
  from encrypt_total [OF assms(1,4,9), of E] obtain m where
    m: "encrypt E n3 key email' = Inr m" by blast
  from encrypt_total [OF assms(1,5,10), of E] obtain u where
    u: "encrypt E n4 key username' = Inr u" by blast
  from encrypt_total [OF assms(1,6,11), of E] obtain p where
    p: "encrypt E n5 key password' = Inr p" by blast
  have "insert_account
      \<lparr>id_col = 0, key_file = Some (take 15 h), website = w, notes = n, email = m,
       username = u, password = p\<rparr> (accounts st) = Inl IntegrityError"
    using taken by (simp add: insert_account_def)
  then show ?thesis
    by (simp add: save_account_def h w n m u p)
qed

lemma demo_key_id:
  "take 15 (hexdigest (sha256 demo_env (replicate 32 1))) = str_lit ''010101010101010''"
  by code_simp

text \<open>
  C1, as stated, fails: for the five strings of which the first is the lone surrogate
  \<open>U+D800\<close> and the others are empty, \<open>save_account\<close> raises \<open>UnicodeEncodeError\<close>;
  no row is inserted and no key file written.
\<close>

theorem save_account_lone_surrogate_counterexample:
  "save_account demo_env (replicate 32 1) (replicate 12 7) (replicate 12 2) (replicate 12 3)
      (replicate 12 4) (replicate 12 8) True [0xD800] [] [] [] [] demo_master_vault
     = (Inl UnicodeEncodeError, demo_master_vault)"
proof -
  have k: "length (replicate 32 (1 :: byte)) = 32" by simp
  have "encrypt demo_env (replicate 12 7) (replicate 32 1) [0xD800] = Inl UnicodeEncodeError"
    using k surrogate_not_blank surrogate_unencodable by (rule encrypt_unencodable)
  then show ?thesis by (simp add: save_account_def hash_str_def)
qed

text \<open>
  C1, amended. Let the key drawn have 32 bytes and the five nonces 12 bytes each, let each
  of the five input strings be blank or encode as UTF-8, and let the key id, the first
  15 characters of \<open>hash_str(key)\<close>, not be the \<open>key_file\<close> of a row of the table.
  Then \<open>save_account\<close> encrypts each field on its own under that key, appends exactly
  one row, with a new id, that key id and the five results, and then writes the key to
  the file of that key id, from which \<open>read_key_from_file\<close> returns it; if the
  operating system refuses that write, \<open>save_account\<close> raises \<open>OSError\<close> and the row
  is in the table all the same. Decrypting a stored field under the key gives back the
  input string, for every field that is blank or whose ciphertext the cipher opens and
  whose stored bytes are not all ASCII whitespace.
\<close>

theorem save_account_roundtrip:
  assumes key: "length key = 32"
    and nonces: "length n1 = 12" "length n2 = 12" "length n3 = 12" "length n4 = 12"
      "length n5 = 12"
    and fields: "storable website'" "storable notes'" "storable email'" "storable username'"
      "storable password'"
    and h: "hash_str E (PBytes key) = Inr h"
    and path: "build_key_file_path E (Some (take 15 h)) = Inr path"
    and fresh: "Some (take 15 h) \<notin> set (map key_file (accounts st))"
  shows "\<exists>w n m u p.
      encrypt E n1 key website' = Inr w \<and> encrypt E n2 key notes' = Inr n \<and>
      encrypt E n3 key email' = Inr m \<and> encrypt E n4 key username' = Inr u \<and>
      encrypt E n5 key password' = Inr p \<and>
      save_account E key n1 n2 n3 n4 n5 True website' notes' email' username' password' st
        = (Inr (), st\<lparr>accounts := accounts st @
                         [\<lparr>id_col = next_id (accounts st), key_file = Some (take 15 h),
                           website = w, notes = n, email = m, username = u, password = p\<rparr>],
                       keys := (keys st)(path \<mapsto> key)\<rparr>) \<and>
      save_account E key n1 n2 n3 n4 n5 False website' notes' email' username' password' st
        = (Inl OSError, st\<lparr>accounts := accounts st @
                         [\<lparr>id_col = next_id (accounts st), key_file = Some (take 15 h),
                           website = w, notes = n, email = m, username = u, password = p\<rparr>]\<rparr>) \<and>
      next_id (accounts st) \<notin> set (map id_col (accounts st)) \<and>
      read_key_from_file E (Some (take 15 h)) ((keys st)(path \<mapsto> key)) = Inr key \<and>
      (readable E key n1 website' \<longrightarrow> decrypt E key w = Inr (PStr website')) \<and>
      (readable E key n2 notes' \<longrightarrow> decrypt E key n = Inr (PStr notes')) \<and>
      (readable E key n3 email' \<longrightarrow> decrypt E key m = Inr (PStr email')) \<and>
      (readable E key n4 username' \<longrightarrow> decrypt E key u = Inr (PStr username')) \<and>
      (readable E key n5 password' \<longrightarrow> decrypt E key p = Inr (PStr password'))"
proof -
  from encrypt_total [OF key nonces(1) fields(1), of E] obtain w where
    w: "encrypt E n1 key website' = Inr w"
      "readable E key n1 website' \<longrightarrow> decrypt E key w = Inr (PStr website')"
    by blast
  from encrypt_total [OF key nonces(2) fields(2), of E] obtain n where
    n: "encrypt E n2 key notes' = Inr n"
      "readable E key n2 notes' \<longrightarrow> decrypt E key n = Inr (PStr notes')"
    by blast
  from encrypt_total [OF key nonces(3) fields(3), of E] obtain m where
    m: "encrypt E n3 key email' = Inr m"
      "readable E key n3 email' \<longrightarrow> decrypt E key m = Inr (PStr email')"
    by blast
  from encrypt_total [OF key nonces(4) fields(4), of E] obtain u where
    u: "encrypt E n4 key username' = Inr u"
      "readable E key n4 username' \<longrightarrow> decrypt E key u = Inr (PStr username')"
    by blast
  from encrypt_total [OF key nonces(5) fields(5), of E] obtain p where
    p: "encrypt E n5 key password' = Inr p" "p \<noteq> PNone"
      "readable E key n5 password' \<longrightarrow> decrypt E key p = Inr (PStr password')"
    by blast
  have inserted: "insert_account
      \<lparr>id_col = 0, key_file = Some (take 15 h), website = w, notes = n, email = m,
       username = u, password = p\<rparr> (accounts st)
    = Inr (accounts st @
        [\<lparr>id_col = next_id (accounts st), key_file = Some (take 15 h),
          website = w, notes = n, email = m, username = u, password = p\<rparr>])"
    using fresh p(2) by (simp add: insert_account_def)
  have written: "save_account E key n1 n2 n3 n4 n5 True website' notes' email' username' password' st
        = (Inr (), st\<lparr>accounts := accounts st @
                         [\<lparr>id_col = next_id (accounts st), key_file = Some (take 15 h),
                           website = w, notes = n, email = m, username = u, password = p\<rparr>],
                       keys := (keys st)(path \<mapsto> key)\<rparr>)"
    by (simp add: save_account_def h w(1) n(1) m(1) u(1) p(1) inserted save_key_to_file_def path)
  have refused: "save_account E key n1 n2 n3 n4 n5 False website' notes' email' username' password' st
        = (Inl OSError, st\<lparr>accounts := accounts st @
                         [\<lparr>id_col = next_id (accounts st), key_file = Some (take 15 h),
                           website = w, notes = n, email = m, username = u, password = p\<rparr>]\<rparr>)"
    by (simp add: save_account_def h w(1) n(1) m(1) u(1) p(1) inserted save_key_to_file_def path)
  have loaded: "read_key_from_file E (Some (take 15 h)) ((keys st)(path \<mapsto> key)) = Inr key"
    by (simp add: read_key_from_file_def path)
  from w n m u p(1,3) written refused loaded next_id_fresh [of "accounts st"]
  show ?thesis by blast
qed

theorem save_account_roundtrip_witness:
  "save_account demo_env (replicate 32 1) (replicate 12 7) (replicate 12 2) (replicate 12 3)
      (replicate 12 4) (replicate 12 8) True [112, 233] [] [32] [] [112, 233] demo_master_vault
     = (Inr (), demo_vault) \<and>
   read_key_from_file demo_env (key_file demo_account_row) (keys demo_vault)
     = Inr (replicate 32 1) \<and>
   decrypt demo_env (replicate 32 1) (website demo_account_row) = Inr (PStr [112, 233]) \<and>
   decrypt demo_env (replicate 32 1) (notes demo_account_row) = Inr (PStr []) \<and>
   decrypt demo_env (replicate 32 1) (email demo_account_row) = Inr (PStr [32]) \<and>
   decrypt demo_env (replicate 32 1) (username demo_account_row) = Inr (PStr []) \<and>
   decrypt demo_env (replicate 32 1) (password demo_account_row) = Inr (PStr [112, 233])"
proof -
  have k: "length (replicate 32 (1 :: byte)) = 32"
    and n1: "length (replicate 12 (7 :: byte)) = 12" and n2: "length (replicate 12 (2 :: byte)) = 12"
    and n3: "length (replicate 12 (3 :: byte)) = 12" and n4: "length (replicate 12 (4 :: byte)) = 12"
    and n5: "length (replicate 12 (8 :: byte)) = 12"
    by simp_all
  have empty_blank: "is_empty_or_whitespace (PStr [])"
    by (simp add: is_empty_or_whitespace_def str_strip_def)
  have s_pe: "storable [112, 233]" unfolding storable_def utf8_pe by simp
  have s_empty: "storable []" and s_space: "storable [32]"
    by (simp_all add: storable_def empty_blank space_blank)
  have r_pe: "readable demo_env (replicate 32 1) nonce [112, 233]" for nonce
    unfolding readable_def utf8_pe option.case demo_seal
    by (intro disjI2 conjI demo_open sealed_pe_not_blank)
  have r_empty: "readable demo_env (replicate 32 1) nonce []"
    and r_space: "readable demo_env (replicate 32 1) nonce [32]" for nonce
    by (simp_all add: readable_def empty_blank space_blank)
  have h: "hash_str demo_env (PBytes (replicate 32 1))
      = Inr (hexdigest (sha256 demo_env (replicate 32 1)))"
    by (simp add: hash_str_def)
  have path: "build_key_file_path demo_env
      (Some (take 15 (hexdigest (sha256 demo_env (replicate 32 1))))) = Inr demo_key_path"
    unfolding demo_key_id by (rule demo_build_path)
  have fresh: "Some (take 15 (hexdigest (sha256 demo_env (replicate 32 1))))
      \<notin> set (map key_file (accounts demo_master_vault))"
    by (simp add: demo_master_vault_def demo_master_row_def)
  from save_account_roundtrip [OF k n1 n2 n3 n4 n5 s_pe s_empty s_space s_empty s_pe h path fresh]
  obtain w n m u p where
    sealed: "encrypt demo_env (replicate 12 7) (replicate 32 1) [112, 233] = Inr w"
      "encrypt demo_env (replicate 12 2) (replicate 32 1) [] = Inr n"
      "encrypt demo_env (replicate 12 3) (replicate 32 1) [32] = Inr m"
      "encrypt demo_env (replicate 12 4) (replicate 32 1) [] = Inr u"
      "encrypt demo_env (replicate 12 8) (replicate 32 1) [112, 233] = Inr p"
    and saved: "save_account demo_env (replicate 32 1) (replicate 12 7) (replicate 12 2)
        (replicate 12 3) (replicate 12 4) (replicate 12 8) True [112, 233] [] [32] []
        [112, 233] demo_master_vault
      = (Inr (), demo_master_vault\<lparr>accounts := accounts demo_master_vault @
            [\<lparr>id_col = next_id (accounts demo_master_vault),
              key_file = Some (take 15 (hexdigest (sha256 demo_env (replicate 32 1)))),
              website = w, notes = n, email = m, username = u, password = p\<rparr>],
          keys := (keys demo_master_vault)(demo_key_path \<mapsto> replicate 32 1)\<rparr>)"
    and loaded: "read_key_from_file demo_env
        (Some (take 15 (hexdigest (sha256 demo_env (replicate 32 1)))))
        ((keys demo_master_vault)(demo_key_path \<mapsto> replicate 32 1)) = Inr (replicate 32 1)"
    and opened:
      "readable demo_env (replicate 32 1) (replicate 12 7) [112, 233] \<longrightarrow>
         decrypt demo_env (replicate 32 1) w = Inr (PStr [112, 233])"
      "readable demo_env (replicate 32 1) (replicate 12 2) [] \<longrightarrow>
         decrypt demo_env (replicate 32 1) n = Inr (PStr [])"
      "readable demo_env (replicate 32 1) (replicate 12 3) [32] \<longrightarrow>
         decrypt demo_env (replicate 32 1) m = Inr (PStr [32])"
      "readable demo_env (replicate 32 1) (replicate 12 4) [] \<longrightarrow>
         decrypt demo_env (replicate 32 1) u = Inr (PStr [])"
      "readable demo_env (replicate 32 1) (replicate 12 8) [112, 233] \<longrightarrow>
         decrypt demo_env (replicate 32 1) p = Inr (PStr [112, 233])"
    by blast
  have w: "w = PBytes (replicate 12 7 @ [112, 195, 169] @ replicate 16 1)"
    using sealed(1) demo_encrypt_pe [OF n1] by simp
  have p: "p = PBytes (replicate 12 8 @ [112, 195, 169] @ replicate 16 1)"
    using sealed(5) demo_encrypt_pe [OF n5] by simp
  have n: "n = PStr []"
    using sealed(2) by (simp add: encrypt_blank empty_blank)
  have u: "u = PStr []"
    using sealed(4) by (simp add: encrypt_blank empty_blank)
  have m: "m = PStr [32]"
    using sealed(3) by (simp add: encrypt_blank space_blank)
  have row: "\<lparr>id_col = next_id (accounts demo_master_vault),
      key_file = Some (take 15 (hexdigest (sha256 demo_env (replicate 32 1)))),
      website = w, notes = n, email = m, username = u, password = p\<rparr> = demo_account_row"
    unfolding demo_key_id w n m u p
    by (simp add: demo_account_row_def next_id_def demo_master_vault_def demo_master_row_def)
  have "save_account demo_env (replicate 32 1) (replicate 12 7) (replicate 12 2)
        (replicate 12 3) (replicate 12 4) (replicate 12 8) True [112, 233] [] [32] []
        [112, 233] demo_master_vault = (Inr (), demo_vault)"
    unfolding saved row by (simp add: demo_master_vault_def demo_vault_def)
  moreover have "decrypt demo_env (replicate 32 1) (website demo_account_row)
      = Inr (PStr [112, 233])"
    using opened(1) r_pe by (simp add: w demo_account_row_def)
  moreover have "decrypt demo_env (replicate 32 1) (notes demo_account_row) = Inr (PStr [])"
    using opened(2) r_empty by (simp add: n demo_account_row_def)
  moreover have "decrypt demo_env (replicate 32 1) (email demo_account_row) = Inr (PStr [32])"
    using opened(3) r_space by (simp add: m demo_account_row_def)
  moreover have "decrypt demo_env (replicate 32 1) (username demo_account_row) = Inr (PStr [])"
    using opened(4) r_empty by (simp add: u demo_account_row_def)
  moreover have "decrypt demo_env (replicate 32 1) (password demo_account_row)
      = Inr (PStr [112, 233])"
    using opened(5) r_pe by (simp add: p demo_account_row_def)
  ultimately show ?thesis using demo_read_key by (intro conjI)
qed

end
